theory Spec2Isabelle
  imports Complex_Main
begin

section \<open>Data model of PathFindingLinkFactory\<close>

text \<open>
  The development embeds the class \<open>PathFindingLinkFactory\<close> (the smart-routing link
  factory).  A JavaScript \<open>number\<close> is modelled by an ideal real number: \<open>NaN\<close> and the
  infinities are outside the model, so every result below that depends on a division is
  stated for a non-zero (indeed positive) \<open>ROUTING_SCALING_FACTOR\<close>.  The results of
  \<open>Math.floor\<close> and \<open>Math.ceil\<close> are kept as integers.  Rounding of IEEE-754 doubles
  is modelled where a result depends on it: the round trip of the coordinate translation
  is stated on a second embedding of the two translation functions whose addition is
  rounded to binary64.
\<close>

type_synonym addr = nat

datatype error = TypeError | RangeError

text \<open>The \<open>{x, width, y, height}\<close> objects built by \<open>calculateMatrixDimensions\<close>, also the
  geometry read from a node or a port.\<close>

record box =
  box_x :: real
  box_width :: real
  box_y :: real
  box_height :: real

record point =
  point_x :: real
  point_y :: real

text \<open>A link: \<open>sourcePort\<close> and \<open>targetPort\<close> may be \<open>null\<close> (\<open>None\<close>).\<close>

record link =
  sourcePort :: "box option"
  targetPort :: "box option"
  points :: "point list"

text \<open>\<open>_.values(diagramModel.nodes)\<close> and \<open>_.values(diagramModel.links)\<close> enumerate the
  two dictionaries in insertion order; the model keeps these value lists.\<close>

record diagramModel_rec =
  nodes :: "box list"
  links :: "link list"

text \<open>The canvas \<open>HTMLDivElement\<close>; the DOM gives \<open>offsetWidth\<close> and \<open>offsetHeight\<close>
  as non-negative integers.\<close>

record canvas_rec =
  offsetWidth :: nat
  offsetHeight :: nat

record engine_rec =
  diagramModel :: diagramModel_rec
  canvas :: canvas_rec

text \<open>
  The factory object together with the heap of row arrays.  A matrix \<open>number[][]\<close> is an
  outer array of references to row arrays.  No method ever assigns to an element of an
  outer array, so an outer array is modelled by the list of its row references; the row
  arrays are mutated in place by \<open>markMatrixPoint\<close> and live in \<open>store\<close>, where the
  address of a row is its index and allocation appends.
\<close>

record factory =
  ROUTING_SCALING_FACTOR :: real
  canvasMatrix :: "addr list"
  routingMatrix :: "addr list"
  hAdjustmentFactor :: real
  vAdjustmentFactor :: real
  engine :: engine_rec
  store :: "int list list"

text \<open>The object returned by \<open>calculateMatrixDimensions\<close>.\<close>

record dimensions =
  dim_width :: int
  dim_hAdjustmentFactor :: real
  dim_height :: int
  dim_vAdjustmentFactor :: real

text \<open>The state of a freshly constructed factory attached to an engine.\<close>

definition newFactory :: "engine_rec \<Rightarrow> factory" where
  "newFactory e =
     \<lparr>ROUTING_SCALING_FACTOR = 5, canvasMatrix = [], routingMatrix = [],
      hAdjustmentFactor = 0, vAdjustmentFactor = 0, engine = e, store = []\<rparr>"

section \<open>Lodash helpers\<close>

text \<open>\<open>_.minBy\<close> and \<open>_.maxBy\<close>: \<open>undefined\<close> (\<open>None\<close>) on an empty array, otherwise the
  first element whose key is strictly smaller (larger) than every key before it.\<close>

fun minBy :: "'a list \<Rightarrow> ('a \<Rightarrow> real) \<Rightarrow> 'a option" where
  "minBy [] k = None"
| "minBy (a # as) k = Some (foldl (\<lambda>result v. if k v < k result then v else result) a as)"

fun maxBy :: "'a list \<Rightarrow> ('a \<Rightarrow> real) \<Rightarrow> 'a option" where
  "maxBy [] k = None"
| "maxBy (a # as) k = Some (foldl (\<lambda>result v. if k result < k v then v else result) a as)"

section \<open>Matrix dimensions\<close>

definition allNodesCoords :: "factory \<Rightarrow> box list" where
  "allNodesCoords f =
     map (\<lambda>item. \<lparr>box_x = box_x item, box_width = box_width item,
                   box_y = box_y item, box_height = box_height item\<rparr>)
       (nodes (diagramModel (engine f)))"

definition allPortsCoords :: "factory \<Rightarrow> box list" where
  "allPortsCoords f =
     map (\<lambda>port. let item = the port in
                    \<lparr>box_x = box_x item, box_width = box_width item,
                     box_y = box_y item, box_height = box_height item\<rparr>)
       (filter (\<lambda>port. port \<noteq> None)
          (concat (map (\<lambda>link. [sourcePort link, targetPort link])
                     (links (diagramModel (engine f))))))"

definition allPointsCoords :: "factory \<Rightarrow> box list" where
  "allPointsCoords f =
     map (\<lambda>item. \<lparr>box_x = point_x item, box_width = 0, box_y = point_y item, box_height = 0\<rparr>)
       (concat (map points (links (diagramModel (engine f)))))"

definition allCoords :: "factory \<Rightarrow> box list" where
  "allCoords f = allNodesCoords f @ allPortsCoords f @ allPointsCoords f"

text \<open>Reading \<open>.x\<close> of the \<open>undefined\<close> that \<open>_.minBy\<close> returns on an empty array throws a
  \<open>TypeError\<close>; so do the three reductions after it.\<close>

definition calculateMatrixDimensions :: "factory \<Rightarrow> error + dimensions" where
  "calculateMatrixDimensions f =
     (let s = ROUTING_SCALING_FACTOR f; coords = allCoords f in
      case minBy coords box_x of
        None \<Rightarrow> Inl TypeError
      | Some minXElement \<Rightarrow>
     (let minX = of_int \<lfloor>min (box_x minXElement) 0 / s\<rfloor> * s in
      case maxBy coords (\<lambda>item. box_x item + box_width item) of
        None \<Rightarrow> Inl TypeError
      | Some maxXElement \<Rightarrow>
     (let maxX = max (box_x maxXElement + box_width maxXElement)
                     (real (offsetWidth (canvas (engine f)))) in
      case minBy coords box_y of
        None \<Rightarrow> Inl TypeError
      | Some minYElement \<Rightarrow>
     (let minY = of_int \<lfloor>min (box_y minYElement) 0 / s\<rfloor> * s in
      case maxBy coords (\<lambda>item. box_y item + box_height item) of
        None \<Rightarrow> Inl TypeError
      | Some maxYElement \<Rightarrow>
     (let maxY = max (box_y maxYElement + box_height maxYElement)
                     (real (offsetHeight (canvas (engine f)))) in
      Inr \<lparr>dim_width = \<lceil>\<bar>minX\<bar> + maxX\<rceil>,
           dim_hAdjustmentFactor = \<bar>minX\<bar> / s + 1,
           dim_height = \<lceil>\<bar>minY\<bar> + maxY\<rceil>,
           dim_vAdjustmentFactor = \<bar>minY\<bar> / s + 1\<rparr>)))))"

section \<open>Coordinate translation\<close>

text \<open>The two translation functions over ideal reals.  The rasterizer applies them to
  integer indices and integer factors, for which the addition of doubles is exact below
  \<open>2^53\<close>; the embedding with the machine's rounding follows further down.\<close>

definition translateRoutingX :: "factory \<Rightarrow> real \<Rightarrow> bool \<Rightarrow> real" where
  "translateRoutingX f x reverse = x + hAdjustmentFactor f * (if reverse then - 1 else 1)"

definition translateRoutingY :: "factory \<Rightarrow> real \<Rightarrow> bool \<Rightarrow> real" where
  "translateRoutingY f y reverse = y + vAdjustmentFactor f * (if reverse then - 1 else 1)"

section \<open>The heap of row arrays\<close>

text \<open>Reading a row; every address a method reads was allocated before, the empty row
  for any other address only makes the function total.\<close>

definition row_at :: "int list list \<Rightarrow> addr \<Rightarrow> int list" where
  "row_at st a = (if a < length st then st ! a else [])"

text \<open>Allocation of one fresh row array per element of \<open>rs\<close>, returning the references in
  order.\<close>

definition newRows :: "int list list \<Rightarrow> factory \<Rightarrow> addr list \<times> factory" where
  "newRows rs f =
     ([length (store f) ..< length (store f) + length rs], f\<lparr>store := store f @ rs\<rparr>)"

text \<open>\<open>_.cloneDeep\<close> of a matrix: a new outer array of new row arrays with the same
  contents.\<close>

definition cloneDeep :: "addr list \<Rightarrow> factory \<Rightarrow> addr list \<times> factory" where
  "cloneDeep matrix f = newRows (map (row_at (store f)) matrix) f"

text \<open>The contents of a matrix, row by row, and one of its cells.\<close>

definition contents :: "factory \<Rightarrow> addr list \<Rightarrow> int list list" where
  "contents f matrix = map (row_at (store f)) matrix"

definition cellAt :: "factory \<Rightarrow> addr list \<Rightarrow> nat \<Rightarrow> nat \<Rightarrow> int" where
  "cellAt f matrix row col = row_at (store f) (matrix ! row) ! col"

section \<open>Canvas matrix\<close>

text \<open>
  A method returns its result (or the exception thrown) together with the factory as the
  call left it.  \<open>_.range(0, n)\<close> has \<open>\<bar>n\<bar>\<close> elements (it counts down for a negative
  \<open>n\<close>); \<open>new Array(n)\<close> throws a \<open>RangeError\<close> for a negative \<open>n\<close>, and is reached
  only when there is at least one row to build.
\<close>

definition calculateCanvasMatrix :: "factory \<Rightarrow> (error + unit) \<times> factory" where
  "calculateCanvasMatrix f =
     (case calculateMatrixDimensions f of
        Inl e \<Rightarrow> (Inl e, f)
      | Inr d \<Rightarrow>
          (let f1 = f\<lparr>hAdjustmentFactor := dim_hAdjustmentFactor d\<rparr>;
               f2 = f1\<lparr>vAdjustmentFactor := dim_vAdjustmentFactor d\<rparr>;
               matrixWidth = \<lceil>of_int (dim_width d) / ROUTING_SCALING_FACTOR f2\<rceil>;
               matrixHeight = \<lceil>of_int (dim_height d) / ROUTING_SCALING_FACTOR f2\<rceil>
           in if matrixHeight \<noteq> 0 \<and> matrixWidth < 0 then (Inl RangeError, f2)
              else (let (m, f3) = newRows (replicate (nat \<bar>matrixHeight\<bar>)
                                             (replicate (nat matrixWidth) 0)) f2
                    in (Inr (), f3\<lparr>canvasMatrix := m\<rparr>))))"

definition getCanvasMatrix :: "factory \<Rightarrow> (error + addr list) \<times> factory" where
  "getCanvasMatrix f =
     (if length (canvasMatrix f) = 0
      then (case calculateCanvasMatrix f of
              (Inl e, f') \<Rightarrow> (Inl e, f')
            | (Inr u, f') \<Rightarrow> (Inr (canvasMatrix f'), f'))
      else (Inr (canvasMatrix f), f))"

section \<open>Routing matrix\<close>

text \<open>\<open>a[i] !== undefined\<close> for an array of \<open>n\<close> numbers (or rows) without holes and a
  number \<open>i\<close>: \<open>i\<close> is an integer with \<open>0 \<le> i < n\<close>.\<close>

definition is_index :: "real \<Rightarrow> nat \<Rightarrow> bool" where
  "is_index i n \<longleftrightarrow> 0 \<le> i \<and> i < real n \<and> of_int \<lfloor>i\<rfloor> = i"

definition markMatrixPoint :: "addr list \<Rightarrow> real \<Rightarrow> real \<Rightarrow> factory \<Rightarrow> factory" where
  "markMatrixPoint matrix x y f =
     (if is_index y (length matrix)
      then (let a = matrix ! nat \<lfloor>y\<rfloor>; row = row_at (store f) a
            in if is_index x (length row)
               then f\<lparr>store := (store f)[a := row[nat \<lfloor>x\<rfloor> := 1]]\<rparr>
               else f)
      else f)"

text \<open>The body that \<open>markNodes\<close> runs for a node and \<open>markPorts\<close> runs, word for word the
  same, for a port: \<open>x\<close> runs while \<open>x <= endX + 1\<close>, \<open>y\<close> runs while \<open>y < endY + 1\<close>.\<close>

definition markElement :: "addr list \<Rightarrow> box \<Rightarrow> factory \<Rightarrow> factory" where
  "markElement matrix el f =
     (let startX = \<lfloor>box_x el / ROUTING_SCALING_FACTOR f\<rfloor>;
          endX = \<lceil>(box_x el + box_width el) / ROUTING_SCALING_FACTOR f\<rceil>;
          startY = \<lfloor>box_y el / ROUTING_SCALING_FACTOR f\<rfloor>;
          endY = \<lceil>(box_y el + box_height el) / ROUTING_SCALING_FACTOR f\<rceil>
      in fold (\<lambda>x f.
           fold (\<lambda>y f. markMatrixPoint matrix (translateRoutingX f (of_int x) False)
                                               (translateRoutingY f (of_int y) False) f)
             [startY - 1 .. endY] f)
           [startX - 1 .. endX + 1] f)"

definition markNodes :: "addr list \<Rightarrow> factory \<Rightarrow> factory" where
  "markNodes matrix f = fold (markElement matrix) (nodes (diagramModel (engine f))) f"

definition markPorts :: "addr list \<Rightarrow> factory \<Rightarrow> factory" where
  "markPorts matrix f =
     (let allElements = concat (map (\<lambda>link. [sourcePort link, targetPort link])
                                  (links (diagramModel (engine f))))
      in fold (\<lambda>port. markElement matrix (the port))
           (filter (\<lambda>port. port \<noteq> None) allElements) f)"

definition calculateRoutingMatrix :: "factory \<Rightarrow> (error + unit) \<times> factory" where
  "calculateRoutingMatrix f =
     (case getCanvasMatrix f of
        (Inl e, f1) \<Rightarrow> (Inl e, f1)
      | (Inr cm, f1) \<Rightarrow>
          (let (matrix, f2) = cloneDeep cm f1;
               f3 = markNodes matrix f2;
               f4 = markPorts matrix f3
           in (Inr (), f4\<lparr>routingMatrix := matrix\<rparr>)))"

definition getRoutingMatrix :: "factory \<Rightarrow> (error + addr list) \<times> factory" where
  "getRoutingMatrix f =
     (if length (routingMatrix f) = 0
      then (case calculateRoutingMatrix f of
              (Inl e, f') \<Rightarrow> (Inl e, f')
            | (Inr u, f') \<Rightarrow> (Inr (routingMatrix f'), f'))
      else (Inr (routingMatrix f), f))"

section \<open>Path emission\<close>

text \<open>The path object of \<open>paths-js\<close> is modelled by the list of its instructions, in the
  order in which \<open>moveto\<close> and \<open>lineto\<close> appended them; a point \<open>[x, y]\<close> is a pair.
  \<open>pathCoords[0][0]\<close> on an empty array throws a \<open>TypeError\<close>.\<close>

datatype instruction = MoveTo real real | LineTo real real

definition moveto :: "instruction list \<Rightarrow> real \<Rightarrow> real \<Rightarrow> instruction list" where
  "moveto path x y = path @ [MoveTo x y]"

definition lineto :: "instruction list \<Rightarrow> real \<Rightarrow> real \<Rightarrow> instruction list" where
  "lineto path x y = path @ [LineTo x y]"

definition generateDynamicPath :: "factory \<Rightarrow> (real \<times> real) list \<Rightarrow> error + instruction list" where
  "generateDynamicPath f pathCoords =
     (case pathCoords of
        [] \<Rightarrow> Inl TypeError
      | first # rest \<Rightarrow>
          (let path = moveto [] (fst first * ROUTING_SCALING_FACTOR f)
                               (snd first * ROUTING_SCALING_FACTOR f)
           in Inr (fold (\<lambda>coords path. lineto path (fst coords * ROUTING_SCALING_FACTOR f)
                                                    (snd coords * ROUTING_SCALING_FACTOR f))
                     rest path)))"

section \<open>Specification-side definitions\<close>

text \<open>
  The bounding boxes of a geometry snapshot in the words of the specification: one box
  for every node, one for every port that is present, and one of width and height 0 for
  every link waypoint.
\<close>

definition spec_boxes :: "engine_rec \<Rightarrow> box list" where
  "spec_boxes e =
     nodes (diagramModel e) @
     concat (map (\<lambda>l. (case sourcePort l of None \<Rightarrow> [] | Some p \<Rightarrow> [p]) @
                      (case targetPort l of None \<Rightarrow> [] | Some p \<Rightarrow> [p]))
               (links (diagramModel e))) @
     concat (map (\<lambda>l. map (\<lambda>w. \<lparr>box_x = point_x w, box_width = 0, box_y = point_y w, box_height = 0\<rparr>)
                        (points l))
               (links (diagramModel e)))"

text \<open>
  The dimension formulas in the words of the specification:
  \<open>min = floor(min(0, min of the coordinates) / s) * s\<close>,
  \<open>max = max(max of coordinate + extent, viewport extent)\<close>,
  \<open>width = ceil(|minX| + maxX)\<close> and \<open>hAdjustment = |minX| / s + 1\<close>, the same on
  the other axis.
\<close>

definition spec_min :: "real \<Rightarrow> real list \<Rightarrow> real" where
  "spec_min s vs = of_int \<lfloor>min 0 (Min (set vs)) / s\<rfloor> * s"

definition spec_max :: "real list \<Rightarrow> real \<Rightarrow> real" where
  "spec_max vs viewport = max (Max (set vs)) viewport"

definition spec_dimensions :: "real \<Rightarrow> box list \<Rightarrow> real \<Rightarrow> real \<Rightarrow> dimensions" where
  "spec_dimensions s boxes viewportWidth viewportHeight =
     (let minX = spec_min s (map box_x boxes);
          maxX = spec_max (map (\<lambda>b. box_x b + box_width b) boxes) viewportWidth;
          minY = spec_min s (map box_y boxes);
          maxY = spec_max (map (\<lambda>b. box_y b + box_height b) boxes) viewportHeight
      in \<lparr>dim_width = \<lceil>\<bar>minX\<bar> + maxX\<rceil>,
          dim_hAdjustmentFactor = \<bar>minX\<bar> / s + 1,
          dim_height = \<lceil>\<bar>minY\<bar> + maxY\<rceil>,
          dim_vAdjustmentFactor = \<bar>minY\<bar> / s + 1\<rparr>)"

definition canvasDimensions :: "factory \<Rightarrow> dimensions" where
  "canvasDimensions f =
     spec_dimensions (ROUTING_SCALING_FACTOR f) (spec_boxes (engine f))
       (real (offsetWidth (canvas (engine f)))) (real (offsetHeight (canvas (engine f))))"

text \<open>The canvas matrix has \<open>ceil(height / s)\<close> rows and \<open>ceil(width / s)\<close> columns.\<close>

definition matrixWidth :: "factory \<Rightarrow> nat" where
  "matrixWidth f = nat \<lceil>of_int (dim_width (canvasDimensions f)) / ROUTING_SCALING_FACTOR f\<rceil>"

definition matrixHeight :: "factory \<Rightarrow> nat" where
  "matrixHeight f = nat \<lceil>of_int (dim_height (canvasDimensions f)) / ROUTING_SCALING_FACTOR f\<rceil>"

text \<open>Modelled from the spec: the class has no method that invalidates the cache; the
  specification's invalidation "clears both matrices together", which for this class is
  the assignment of an empty array to both fields.\<close>

definition invalidate :: "factory \<Rightarrow> factory" where
  "invalidate f = f\<lparr>canvasMatrix := [], routingMatrix := []\<rparr>"

section \<open>Auxiliary notions for the rasterization\<close>

text \<open>The pairs \<open>(x, y)\<close> that the two nested loops of \<open>markNodes\<close> and \<open>markPorts\<close> visit
  for one element, in the order of the visit, before translation.\<close>

definition elementCells :: "real \<Rightarrow> box \<Rightarrow> (int \<times> int) list" where
  "elementCells s el =
     (let startX = \<lfloor>box_x el / s\<rfloor>;
          endX = \<lceil>(box_x el + box_width el) / s\<rceil>;
          startY = \<lfloor>box_y el / s\<rfloor>;
          endY = \<lceil>(box_y el + box_height el) / s\<rceil>
      in concat (map (\<lambda>x. map (\<lambda>y. (x, y)) [startY - 1 .. endY]) [startX - 1 .. endX + 1]))"

text \<open>A visited pair after \<open>translateRoutingX\<close> and \<open>translateRoutingY\<close>, and the set of
  translated pairs of a list of elements.\<close>

definition translated :: "factory \<Rightarrow> int \<times> int \<Rightarrow> real \<times> real" where
  "translated f p =
     (translateRoutingX f (of_int (fst p)) False, translateRoutingY f (of_int (snd p)) False)"

definition markedBy :: "factory \<Rightarrow> box list \<Rightarrow> (real \<times> real) set" where
  "markedBy f els =
     (\<Union>el \<in> set els. translated f ` set (elementCells (ROUTING_SCALING_FACTOR f) el))"

text \<open>The ports that \<open>markPorts\<close> rasterizes, and all rasterized elements: nodes first.\<close>

definition portElements :: "engine_rec \<Rightarrow> box list" where
  "portElements e =
     map the (filter (\<lambda>port. port \<noteq> None)
                (concat (map (\<lambda>link. [sourcePort link, targetPort link]) (links (diagramModel e)))))"

definition obstacles :: "engine_rec \<Rightarrow> box list" where
  "obstacles e = nodes (diagramModel e) @ portElements e"

text \<open>
  \<open>marks m T f g\<close>: the factory \<open>g\<close> is \<open>f\<close> after the cells of the matrix \<open>m\<close> at the
  positions in \<open>T\<close> (column, row) were set to 1: only the heap changed, no row changed
  its length, rows outside \<open>m\<close> are untouched, and a cell of \<open>m\<close> is 1 if its position
  is in \<open>T\<close> and keeps its value otherwise.
\<close>

definition marks :: "addr list \<Rightarrow> (real \<times> real) set \<Rightarrow> factory \<Rightarrow> factory \<Rightarrow> bool" where
  "marks m T f g \<longleftrightarrow>
     g = f\<lparr>store := store g\<rparr> \<and> length (store g) = length (store f) \<and>
     (\<forall>a. length (row_at (store g) a) = length (row_at (store f) a)) \<and>
     (\<forall>a. a \<notin> set m \<longrightarrow> row_at (store g) a = row_at (store f) a) \<and>
     (\<forall>r c. r < length m \<longrightarrow> c < length (row_at (store f) (m ! r)) \<longrightarrow>
        cellAt g m r c = (if (real c, real r) \<in> T then 1 else cellAt f m r c))"

text \<open>Well-formedness of a matrix reference (every row was allocated), and a matrix
  content in which every cell is free.\<close>

definition allocated :: "factory \<Rightarrow> addr list \<Rightarrow> bool" where
  "allocated f matrix = list_all (\<lambda>a. a < length (store f)) matrix"

definition allFree :: "int list list \<Rightarrow> bool" where
  "allFree rows = list_all (list_all (\<lambda>v. v = 0)) rows"

section \<open>Concrete diagrams\<close>

text \<open>The scenario of the specification: viewport 800 by 600, one node at (100,100) of
  size (50,50), no links; and the factory after the first read of its routing matrix.\<close>

definition node3 :: box where
  "node3 = \<lparr>box_x = 100, box_width = 50, box_y = 100, box_height = 50\<rparr>"

definition scene3 :: engine_rec where
  "scene3 = \<lparr>diagramModel = \<lparr>nodes = [\<lparr>box_x = 100, box_width = 50, box_y = 100, box_height = 50\<rparr>],
                                links = []\<rparr>,
             canvas = \<lparr>offsetWidth = 800, offsetHeight = 600\<rparr>\<rparr>"

definition routed3 :: factory where
  "routed3 = snd (getRoutingMatrix (newFactory scene3))"

text \<open>A diagram with no nodes and no links.\<close>

definition emptyScene :: engine_rec where
  "emptyScene = \<lparr>diagramModel = \<lparr>nodes = [], links = []\<rparr>,
                 canvas = \<lparr>offsetWidth = 800, offsetHeight = 600\<rparr>\<rparr>"

text \<open>A diagram without extent: a canvas that is not laid out (\<open>offsetWidth\<close> and
  \<open>offsetHeight\<close> 0) with one node of size 0 at the origin.\<close>

definition flatScene :: engine_rec where
  "flatScene = \<lparr>diagramModel = \<lparr>nodes = [\<lparr>box_x = 0, box_width = 0, box_y = 0, box_height = 0\<rparr>],
                                  links = []\<rparr>,
                canvas = \<lparr>offsetWidth = 0, offsetHeight = 0\<rparr>\<rparr>"

definition flatCanvas :: factory where
  "flatCanvas = snd (getCanvasMatrix (newFactory flatScene))"

definition flatRouted :: factory where
  "flatRouted = snd (getRoutingMatrix (newFactory flatScene))"

text \<open>A small diagram: viewport 20 by 10, a node left of the origin, a link with a
  source port, no target port and one waypoint.\<close>

definition smallNode :: box where
  "smallNode = \<lparr>box_x = - 7, box_width = 4, box_y = 3, box_height = 2\<rparr>"

definition smallScene :: engine_rec where
  "smallScene =
     \<lparr>diagramModel =
        \<lparr>nodes = [\<lparr>box_x = - 7, box_width = 4, box_y = 3, box_height = 2\<rparr>],
         links = [\<lparr>sourcePort = Some \<lparr>box_x = 12, box_width = 2, box_y = 6, box_height = 2\<rparr>,
                   targetPort = None,
                   points = [\<lparr>point_x = 1, point_y = 1\<rparr>]\<rparr>]\<rparr>,
      canvas = \<lparr>offsetWidth = 20, offsetHeight = 10\<rparr>\<rparr>"

definition smallCanvas :: factory where
  "smallCanvas = snd (getCanvasMatrix (newFactory smallScene))"

definition smallRouted :: factory where
  "smallRouted = snd (getRoutingMatrix (newFactory smallScene))"

definition smallMarked :: factory where
  "smallMarked = snd (calculateRoutingMatrix smallCanvas)"



section \<open>Coordinate translation in binary64\<close>

text \<open>
  IEEE-754 binary64 rounding of a real number, round to nearest, ties to even.  The unit
  in the last place of \<open>x\<close> is \<open>2^(e - 52)\<close> for \<open>2^e \<le> |x| < 2^(e+1)\<close>, and \<open>2^(-1074)\<close>
  in the subnormal range; \<open>x\<close> is rounded to the nearest multiple of it, to the even
  multiple when two are equally near.  A rounded magnitude of \<open>2^1024\<close> or more is the
  overflow to an infinity, which is no number of the model: \<open>None\<close>.
\<close>

definition roundTiesToEven :: "real \<Rightarrow> int" where
  "roundTiesToEven r =
     (let n = \<lfloor>r\<rfloor> in
      if r - of_int n < 1 / 2 then n
      else if 1 / 2 < r - of_int n then n + 1
      else if even n then n else n + 1)"

definition pow2 :: "int \<Rightarrow> real" where
  "pow2 k = (if 0 \<le> k then 2 ^ nat k else 1 / 2 ^ nat (- k))"

definition ulpExponent :: "real \<Rightarrow> int" where
  "ulpExponent x = max (\<lfloor>log 2 \<bar>x\<bar>\<rfloor> - 52) (- 1074)"

definition binary64 :: "real \<Rightarrow> real option" where
  "binary64 x =
     (if x = 0 then Some 0
      else (let u = pow2 (ulpExponent x);
                r = of_int (roundTiesToEven (x / u)) * u
            in if \<bar>r\<bar> < 2 ^ 1024 then Some r else None))"

text \<open>
  \<open>translateRoutingX\<close> and \<open>translateRoutingY\<close> as the machine computes them, for
  arguments and factors that are doubles: the product of the factor with \<open>1\<close> or \<open>-1\<close>
  is exact, the sum is rounded.  Translating to grid space and back is the composition
  of the two calls.
\<close>

definition translateRoutingX_binary64 :: "factory \<Rightarrow> real \<Rightarrow> bool \<Rightarrow> real option" where
  "translateRoutingX_binary64 f x reverse =
     binary64 (x + hAdjustmentFactor f * (if reverse then - 1 else 1))"

definition translateRoutingY_binary64 :: "factory \<Rightarrow> real \<Rightarrow> bool \<Rightarrow> real option" where
  "translateRoutingY_binary64 f y reverse =
     binary64 (y + vAdjustmentFactor f * (if reverse then - 1 else 1))"

definition roundTripX :: "factory \<Rightarrow> real \<Rightarrow> real option" where
  "roundTripX f v =
     (case translateRoutingX_binary64 f v False of
        None \<Rightarrow> None
      | Some g \<Rightarrow> translateRoutingX_binary64 f g True)"

definition roundTripY :: "factory \<Rightarrow> real \<Rightarrow> real option" where
  "roundTripY f v =
     (case translateRoutingY_binary64 f v False of
        None \<Rightarrow> None
      | Some g \<Rightarrow> translateRoutingY_binary64 f g True)"

text \<open>The double written \<open>0.1\<close>, its translation by the factor 3 and the result of
  translating that back.\<close>

definition tenth64 :: real where
  "tenth64 = 3602879701896397 / 2 ^ 55"

definition there64 :: real where
  "there64 = 6980579422424269 / 2 ^ 51"

definition back64 :: real where
  "back64 = 225179981368525 / 2 ^ 51"

section \<open>Emitted instructions\<close>

lemma fold_lineto:
  "fold (\<lambda>coords path. lineto path (fst coords * s) (snd coords * s)) ps path =
   path @ map (\<lambda>p. LineTo (fst p * s) (snd p * s)) ps"
  by (induction ps arbitrary: path) (simp_all add: lineto_def)

section \<open>Reductions and dimensions\<close>

lemma foldl_min_mem:
  "foldl (\<lambda>result v. if k v < k result then v else result) a as \<in> set (a # as)"
  by (induction as arbitrary: a) auto

lemma foldl_min_le:
  "x \<in> set (a # as) \<Longrightarrow>
   k (foldl (\<lambda>result v. if k v < k result then v else result) a as) \<le> (k x :: real)"
proof (induction as arbitrary: a x)
  case Nil
  then show ?case by simp
next
  case (Cons b bs)
  have "k (foldl (\<lambda>result v. if k v < k result then v else result) (if k b < k a then b else a) bs)
        \<le> k (if k b < k a then b else a)"
    using Cons.IH [of "if k b < k a then b else a" "if k b < k a then b else a"] by simp
  moreover have "x \<in> set bs \<Longrightarrow>
     k (foldl (\<lambda>result v. if k v < k result then v else result) (if k b < k a then b else a) bs) \<le> k x"
    using Cons.IH [of x "if k b < k a then b else a"] by simp
  ultimately show ?case using Cons.prems by (auto split: if_splits)
qed

lemma foldl_max_mem:
  "foldl (\<lambda>result v. if k result < k v then v else result) a as \<in> set (a # as)"
  by (induction as arbitrary: a) auto

lemma foldl_max_ge:
  "x \<in> set (a # as) \<Longrightarrow>
   (k x :: real) \<le> k (foldl (\<lambda>result v. if k result < k v then v else result) a as)"
proof (induction as arbitrary: a x)
  case Nil
  then show ?case by simp
next
  case (Cons b bs)
  have "k (if k a < k b then b else a)
        \<le> k (foldl (\<lambda>result v. if k result < k v then v else result) (if k a < k b then b else a) bs)"
    using Cons.IH [of "if k a < k b then b else a" "if k a < k b then b else a"] by simp
  moreover have "x \<in> set bs \<Longrightarrow>
     k x \<le> k (foldl (\<lambda>result v. if k result < k v then v else result) (if k a < k b then b else a) bs)"
    using Cons.IH [of x "if k a < k b then b else a"] by simp
  ultimately show ?case using Cons.prems by (auto split: if_splits)
qed

lemma minBy_Some:
  assumes "xs \<noteq> []"
  shows "\<exists>m. minBy xs k = Some m \<and> m \<in> set xs \<and> k m = Min (set (map k xs))"
proof -
  obtain a as where xs: "xs = a # as" using assms by (cases xs) auto
  let ?m = "foldl (\<lambda>result v. if k v < k result then v else result) a as"
  have mem: "?m \<in> set xs" unfolding xs by (rule foldl_min_mem)
  have le: "\<And>x. x \<in> set xs \<Longrightarrow> k ?m \<le> k x" unfolding xs by (rule foldl_min_le)
  have "Min (set (map k xs)) = k ?m"
    by (rule Min_eqI) (use mem le in auto)
  then show ?thesis using mem by (simp add: xs)
qed

lemma maxBy_Some:
  assumes "xs \<noteq> []"
  shows "\<exists>m. maxBy xs k = Some m \<and> m \<in> set xs \<and> k m = Max (set (map k xs))"
proof -
  obtain a as where xs: "xs = a # as" using assms by (cases xs) auto
  let ?m = "foldl (\<lambda>result v. if k result < k v then v else result) a as"
  have mem: "?m \<in> set xs" unfolding xs by (rule foldl_max_mem)
  have ge: "\<And>x. x \<in> set xs \<Longrightarrow> k x \<le> k ?m" unfolding xs by (rule foldl_max_ge)
  have "Max (set (map k xs)) = k ?m"
    by (rule Max_eqI) (use mem ge in auto)
  then show ?thesis using mem by (simp add: xs)
qed

lemma allCoords_spec_boxes: "allCoords f = spec_boxes (engine f)"
proof -
  have ports: "map (\<lambda>port. let item = the port in
                    \<lparr>box_x = box_x item, box_width = box_width item,
                     box_y = box_y item, box_height = box_height item\<rparr>)
       (filter (\<lambda>port. port \<noteq> None)
          (concat (map (\<lambda>link. [sourcePort link, targetPort link]) ls)))
     = concat (map (\<lambda>l. (case sourcePort l of None \<Rightarrow> [] | Some p \<Rightarrow> [p]) @
                      (case targetPort l of None \<Rightarrow> [] | Some p \<Rightarrow> [p])) ls)" for ls :: "link list"
    by (induction ls) (auto split: option.splits)
  have pts: "map (\<lambda>item. \<lparr>box_x = point_x item, box_width = 0, box_y = point_y item, box_height = 0\<rparr>)
       (concat (map points ls))
     = concat (map (\<lambda>l. map (\<lambda>w. \<lparr>box_x = point_x w, box_width = 0, box_y = point_y w, box_height = 0\<rparr>)
                        (points l)) ls)" for ls :: "link list"
    by (induction ls) auto
  have nds: "map (\<lambda>item. \<lparr>box_x = box_x item, box_width = box_width item,
                   box_y = box_y item, box_height = box_height item\<rparr>) ns = ns" for ns :: "box list"
    by (induction ns) auto
  show ?thesis
    unfolding allCoords_def allNodesCoords_def allPortsCoords_def allPointsCoords_def
        spec_boxes_def ports pts nds ..
qed

lemma calculateMatrixDimensions_spec:
  assumes "allCoords f \<noteq> []"
  shows "calculateMatrixDimensions f =
     Inr (spec_dimensions (ROUTING_SCALING_FACTOR f) (allCoords f)
            (real (offsetWidth (canvas (engine f)))) (real (offsetHeight (canvas (engine f)))))"
proof -
  obtain a where a: "minBy (allCoords f) box_x = Some a" "box_x a = Min (set (map box_x (allCoords f)))"
    using minBy_Some [OF assms, of box_x] by blast
  obtain b where b: "maxBy (allCoords f) (\<lambda>item. box_x item + box_width item) = Some b"
     "box_x b + box_width b = Max (set (map (\<lambda>item. box_x item + box_width item) (allCoords f)))"
    using maxBy_Some [OF assms, of "\<lambda>item. box_x item + box_width item"] by blast
  obtain c where c: "minBy (allCoords f) box_y = Some c" "box_y c = Min (set (map box_y (allCoords f)))"
    using minBy_Some [OF assms, of box_y] by blast
  obtain d where d: "maxBy (allCoords f) (\<lambda>item. box_y item + box_height item) = Some d"
     "box_y d + box_height d = Max (set (map (\<lambda>item. box_y item + box_height item) (allCoords f)))"
    using maxBy_Some [OF assms, of "\<lambda>item. box_y item + box_height item"] by blast
  show ?thesis
    unfolding calculateMatrixDimensions_def spec_dimensions_def spec_min_def spec_max_def Let_def
    by (simp only: a b c d option.case min.commute)
qed

lemma calculateMatrixDimensions_empty:
  "allCoords f = [] \<Longrightarrow> calculateMatrixDimensions f = Inl TypeError"
  by (simp add: calculateMatrixDimensions_def)

section \<open>Marking cells\<close>

lemma marks_refl: "marks m {} f f"
  by (simp add: marks_def)

lemma marks_trans:
  assumes "marks m T1 f g" and "marks m T2 g h"
  shows "marks m (T1 \<union> T2) f h"
proof -
  have "h = g\<lparr>store := store h\<rparr>" "g = f\<lparr>store := store g\<rparr>"
    using assms by (simp_all add: marks_def)
  then have "h = (f\<lparr>store := store g\<rparr>)\<lparr>store := store h\<rparr>" by simp
  then have frame: "h = f\<lparr>store := store h\<rparr>" by simp
  have len: "\<And>a. length (row_at (store g) a) = length (row_at (store f) a)"
    using assms(1) by (simp add: marks_def)
  have cell: "cellAt h m r c = (if (real c, real r) \<in> T1 \<union> T2 then 1 else cellAt f m r c)"
    if "r < length m" "c < length (row_at (store f) (m ! r))" for r c
  proof -
    have 1: "cellAt g m r c = (if (real c, real r) \<in> T1 then 1 else cellAt f m r c)"
      using assms(1) that by (simp add: marks_def)
    have 2: "cellAt h m r c = (if (real c, real r) \<in> T2 then 1 else cellAt g m r c)"
      using assms(2) that len by (simp add: marks_def)
    show ?thesis using 1 2 by simp
  qed
  show ?thesis
    unfolding marks_def
  proof (intro conjI allI impI)
    show "h = f\<lparr>store := store h\<rparr>" by (rule frame)
    show "length (store h) = length (store f)" using assms by (simp add: marks_def)
    show "length (row_at (store h) a) = length (row_at (store f) a)" for a
      using assms by (simp add: marks_def)
    show "row_at (store h) a = row_at (store f) a" if "a \<notin> set m" for a
      using assms that by (simp add: marks_def)
    show "cellAt h m r c = (if (real c, real r) \<in> T1 \<union> T2 then 1 else cellAt f m r c)"
      if "r < length m" "c < length (row_at (store f) (m ! r))" for r c
      using that by (rule cell)
  qed
qed

lemma is_index_real: "is_index (real c) n \<longleftrightarrow> c < n"
  by (simp add: is_index_def)

lemma is_index_nat: "is_index x n \<Longrightarrow> real (nat \<lfloor>x\<rfloor>) = x \<and> nat \<lfloor>x\<rfloor> < n"
  unfolding is_index_def
  by (metis floor_of_nat nat_int of_int_of_nat_eq of_nat_0_le_iff of_nat_less_iff of_nat_nat zero_le_floor)

lemma row_at_update:
  "row_at (st[a := row]) b = (if b = a \<and> a < length st then row else row_at st b)"
  by (simp add: row_at_def)

lemma marks_point:
  assumes "distinct m"
  shows "marks m {(x, y)} f (markMatrixPoint m x y f)"
proof (cases "is_index y (length m)")
  case False
  then have "markMatrixPoint m x y f = f" by (simp add: markMatrixPoint_def)
  moreover have "(real c, real r) \<noteq> (x, y)" if "r < length m" for r c
    using False that is_index_real by auto
  ultimately show ?thesis by (auto simp: marks_def)
next
  case y: True
  define a where "a = m ! nat \<lfloor>y\<rfloor>"
  define row where "row = row_at (store f) a"
  have ry: "real (nat \<lfloor>y\<rfloor>) = y" "nat \<lfloor>y\<rfloor> < length m" using is_index_nat [OF y] by simp_all
  show ?thesis
  proof (cases "is_index x (length row)")
    case False
    then have same: "markMatrixPoint m x y f = f"
      using y by (simp add: markMatrixPoint_def a_def row_def Let_def)
    have "(real c, real r) \<noteq> (x, y)"
      if "r < length m" "c < length (row_at (store f) (m ! r))" for r c
    proof
      assume "(real c, real r) = (x, y)"
      then have "x = real c" "nat \<lfloor>y\<rfloor> = r" by auto
      then show False using False that is_index_real by (simp add: row_def a_def)
    qed
    then show ?thesis using same by (auto simp: marks_def)
  next
    case x: True
    have rx: "real (nat \<lfloor>x\<rfloor>) = x" "nat \<lfloor>x\<rfloor> < length row" using is_index_nat [OF x] by simp_all
    have a_ok: "a < length (store f)"
      using rx(2) by (auto simp: row_def row_at_def split: if_splits)
    have res: "markMatrixPoint m x y f = f\<lparr>store := (store f)[a := row[nat \<lfloor>x\<rfloor> := 1]]\<rparr>"
      using x y by (simp add: markMatrixPoint_def a_def row_def Let_def)
    have a_iff: "m ! r = a \<longleftrightarrow> r = nat \<lfloor>y\<rfloor>" if "r < length m" for r
      using assms that ry(2) by (simp add: a_def nth_eq_iff_index_eq)
    have pt: "(real c, real r) = (x, y) \<longleftrightarrow> c = nat \<lfloor>x\<rfloor> \<and> r = nat \<lfloor>y\<rfloor>" for r c
      using rx(1) ry(1) by (metis Pair_inject of_nat_eq_iff)
    show ?thesis
      unfolding marks_def res
    proof (intro conjI allI impI)
      fix r c
      assume r: "r < length m" and c: "c < length (row_at (store f) (m ! r))"
      show "cellAt (f\<lparr>store := (store f)[a := row[nat \<lfloor>x\<rfloor> := 1]]\<rparr>) m r c =
            (if (real c, real r) \<in> {(x, y)} then 1 else cellAt f m r c)"
      proof (cases "r = nat \<lfloor>y\<rfloor>")
        case True
        then have "m ! r = a" by (simp add: a_def)
        then show ?thesis
          using True a_ok c rx pt [of c r]
          by (auto simp: cellAt_def row_at_update row_def nth_list_update)
      next
        case False
        then have "m ! r \<noteq> a" using a_iff [OF r] by simp
        then show ?thesis
          using False pt [of c r] by (auto simp: cellAt_def row_at_update)
      qed
    next
      fix b
      assume "b \<notin> set m"
      then have "b \<noteq> a" using ry(2) by (auto simp: a_def)
      then show "row_at (store (f\<lparr>store := (store f)[a := row[nat \<lfloor>x\<rfloor> := 1]]\<rparr>)) b = row_at (store f) b"
        by (simp add: row_at_update)
    qed (auto simp: row_at_update row_def)
  qed
qed

lemma marks_fields:
  assumes "marks m T f g"
  shows "hAdjustmentFactor g = hAdjustmentFactor f" "vAdjustmentFactor g = vAdjustmentFactor f"
    "ROUTING_SCALING_FACTOR g = ROUTING_SCALING_FACTOR f" "engine g = engine f"
    "canvasMatrix g = canvasMatrix f" "routingMatrix g = routingMatrix f"
proof -
  have g: "g = f\<lparr>store := store g\<rparr>" using assms by (simp add: marks_def)
  show "hAdjustmentFactor g = hAdjustmentFactor f" by (subst g) simp
  show "vAdjustmentFactor g = vAdjustmentFactor f" by (subst g) simp
  show "ROUTING_SCALING_FACTOR g = ROUTING_SCALING_FACTOR f" by (subst g) simp
  show "engine g = engine f" by (subst g) simp
  show "canvasMatrix g = canvasMatrix f" by (subst g) simp
  show "routingMatrix g = routingMatrix f" by (subst g) simp
qed

lemma translated_marks: "marks m T f g \<Longrightarrow> translated g = translated f"
  by (rule ext) (simp add: translated_def translateRoutingX_def translateRoutingY_def marks_fields)

lemma markedBy_marks: "marks m T f g \<Longrightarrow> markedBy g els = markedBy f els"
  by (simp add: markedBy_def translated_marks marks_fields)

lemma marks_fold_cells:
  assumes "distinct m"
  shows "marks m (translated f ` set cells) f
           (fold (\<lambda>p g. markMatrixPoint m (fst (translated g p)) (snd (translated g p)) g) cells f)"
proof (induction cells arbitrary: f)
  case Nil
  show ?case by (simp add: marks_refl)
next
  case (Cons p ps)
  let ?g = "markMatrixPoint m (fst (translated f p)) (snd (translated f p)) f"
  have 1: "marks m {translated f p} f ?g"
    using marks_point [OF assms, of "fst (translated f p)" "snd (translated f p)" f] by simp
  have 2: "marks m (translated f ` set ps) ?g
             (fold (\<lambda>p g. markMatrixPoint m (fst (translated g p)) (snd (translated g p)) g) ps ?g)"
    using Cons.IH [of ?g] translated_marks [OF 1] by simp
  show ?case using marks_trans [OF 1 2] by simp
qed

lemma fold_concat_nested: "fold f (concat xss) s = fold (\<lambda>xs. fold f xs) xss s"
  by (induction xss arbitrary: s) simp_all

lemma markElement_cells:
  "markElement m el f =
     fold (\<lambda>p g. markMatrixPoint m (fst (translated g p)) (snd (translated g p)) g)
       (elementCells (ROUTING_SCALING_FACTOR f) el) f"
  by (simp add: markElement_def elementCells_def Let_def fold_concat_nested fold_map comp_def translated_def)

lemma marks_element:
  "distinct m \<Longrightarrow> marks m (markedBy f [el]) f (markElement m el f)"
  unfolding markElement_cells markedBy_def using marks_fold_cells [of m f] by simp

lemma markedBy_Cons: "markedBy f (el # els) = markedBy f [el] \<union> markedBy f els"
  by (simp add: markedBy_def)

lemma marks_elements:
  assumes "distinct m"
  shows "marks m (markedBy f els) f (fold (markElement m) els f)"
proof (induction els arbitrary: f)
  case Nil
  show ?case by (simp add: marks_refl markedBy_def)
next
  case (Cons el els)
  have 1: "marks m (markedBy f [el]) f (markElement m el f)"
    by (rule marks_element [OF assms])
  have 2: "marks m (markedBy f els) (markElement m el f) (fold (markElement m) els (markElement m el f))"
    using Cons.IH [of "markElement m el f"] markedBy_marks [OF 1] by simp
  show ?case using marks_trans [OF 1 2] by (simp add: markedBy_Cons [of f el els])
qed

lemma marks_nodes:
  "distinct m \<Longrightarrow> marks m (markedBy f (nodes (diagramModel (engine f)))) f (markNodes m f)"
  unfolding markNodes_def by (rule marks_elements)

lemma marks_ports:
  "distinct m \<Longrightarrow> marks m (markedBy f (portElements (engine f))) f (markPorts m f)"
proof -
  assume m: "distinct m"
  have "fold (\<lambda>port. markElement m (the port)) ps = fold (markElement m) (map the ps)"
    for ps :: "box option list"
    by (simp add: fold_map comp_def)
  then have "markPorts m f = fold (markElement m) (portElements (engine f)) f"
    unfolding markPorts_def portElements_def Let_def by (rule arg_cong [where f = "\<lambda>h. h f"])
  then show ?thesis using marks_elements [OF m, of f "portElements (engine f)"] by simp
qed

lemma markedBy_append: "markedBy f (xs @ ys) = markedBy f xs \<union> markedBy f ys"
  by (simp add: markedBy_def)

lemma marks_nodes_ports:
  assumes "distinct m"
  shows "marks m (markedBy f (nodes (diagramModel (engine f)) @ portElements (engine f))) f
           (markPorts m (markNodes m f))"
proof -
  have 1: "marks m (markedBy f (nodes (diagramModel (engine f)))) f (markNodes m f)"
    by (rule marks_nodes [OF assms])
  have 2: "marks m (markedBy f (portElements (engine f))) (markNodes m f) (markPorts m (markNodes m f))"
    using marks_ports [OF assms, of "markNodes m f"] markedBy_marks [OF 1] marks_fields(4) [OF 1]
    by simp
  show ?thesis using marks_trans [OF 1 2] by (simp add: markedBy_append)
qed

section \<open>The canvas matrix\<close>

lemma allCoords_cong:
  "engine g = engine f \<Longrightarrow> allCoords g = allCoords f"
  by (simp add: allCoords_spec_boxes)

lemma calculateMatrixDimensions_cong:
  "engine g = engine f \<Longrightarrow> ROUTING_SCALING_FACTOR g = ROUTING_SCALING_FACTOR f \<Longrightarrow>
   calculateMatrixDimensions g = calculateMatrixDimensions f"
  unfolding calculateMatrixDimensions_def allCoords_spec_boxes by (simp only:)

lemma calculateMatrixDimensions_canvasDimensions:
  "spec_boxes (engine f) \<noteq> [] \<Longrightarrow> calculateMatrixDimensions f = Inr (canvasDimensions f)"
  using calculateMatrixDimensions_spec [of f] by (simp add: allCoords_spec_boxes canvasDimensions_def)

lemma spec_max_ge: "viewport \<le> spec_max vs viewport"
  by (simp add: spec_max_def)

lemma dim_width_nonneg: "0 \<le> dim_width (canvasDimensions f)"
proof -
  have "0 \<le> real (offsetWidth (canvas (engine f)))" by simp
  also have "\<dots> \<le> spec_max (map (\<lambda>b. box_x b + box_width b) (spec_boxes (engine f)))
                      (real (offsetWidth (canvas (engine f))))"
    by (rule spec_max_ge)
  finally show ?thesis
    by (simp add: canvasDimensions_def spec_dimensions_def Let_def)
qed

lemma dim_height_nonneg: "0 \<le> dim_height (canvasDimensions f)"
proof -
  have "0 \<le> real (offsetHeight (canvas (engine f)))" by simp
  also have "\<dots> \<le> spec_max (map (\<lambda>b. box_y b + box_height b) (spec_boxes (engine f)))
                      (real (offsetHeight (canvas (engine f))))"
    by (rule spec_max_ge)
  finally show ?thesis
    by (simp add: canvasDimensions_def spec_dimensions_def Let_def)
qed

lemma ceiling_div_nonneg: "0 \<le> (w::int) \<Longrightarrow> 0 < (s::real) \<Longrightarrow> 0 \<le> \<lceil>of_int w / s\<rceil>"
proof -
  assume "0 \<le> w" "0 < s"
  then have "0 \<le> of_int w / s" by simp
  then have "\<lceil>0::real\<rceil> \<le> \<lceil>of_int w / s\<rceil>" by (rule ceiling_mono)
  then show ?thesis by simp
qed

lemma calculateCanvasMatrix_Inr:
  assumes "spec_boxes (engine f) \<noteq> []" and "0 < ROUTING_SCALING_FACTOR f"
  shows "calculateCanvasMatrix f =
     (Inr (), f\<lparr>hAdjustmentFactor := dim_hAdjustmentFactor (canvasDimensions f),
               vAdjustmentFactor := dim_vAdjustmentFactor (canvasDimensions f),
               store := store f @ replicate (matrixHeight f) (replicate (matrixWidth f) 0),
               canvasMatrix := [length (store f) ..< length (store f) + matrixHeight f]\<rparr>)"
proof -
  define W where "W = \<lceil>of_int (dim_width (canvasDimensions f)) / ROUTING_SCALING_FACTOR f\<rceil>"
  define H where "H = \<lceil>of_int (dim_height (canvasDimensions f)) / ROUTING_SCALING_FACTOR f\<rceil>"
  have w: "0 \<le> W" unfolding W_def
    by (rule ceiling_div_nonneg [OF dim_width_nonneg assms(2)])
  have h: "0 \<le> H" unfolding H_def
    by (rule ceiling_div_nonneg [OF dim_height_nonneg assms(2)])
  have mw: "matrixWidth f = nat W" by (simp add: matrixWidth_def W_def)
  have mh: "matrixHeight f = nat H" by (simp add: matrixHeight_def H_def)
  have "calculateCanvasMatrix f =
     (if H \<noteq> 0 \<and> W < 0
      then (Inl RangeError, f\<lparr>hAdjustmentFactor := dim_hAdjustmentFactor (canvasDimensions f),
               vAdjustmentFactor := dim_vAdjustmentFactor (canvasDimensions f)\<rparr>)
      else (let (m, f3) = newRows (replicate (nat \<bar>H\<bar>) (replicate (nat W) 0))
                   (f\<lparr>hAdjustmentFactor := dim_hAdjustmentFactor (canvasDimensions f),
                      vAdjustmentFactor := dim_vAdjustmentFactor (canvasDimensions f)\<rparr>)
            in (Inr (), f3\<lparr>canvasMatrix := m\<rparr>)))"
    unfolding calculateCanvasMatrix_def calculateMatrixDimensions_canvasDimensions [OF assms(1)]
      W_def H_def
    by (simp add: Let_def)
  also have "\<dots> = (Inr (), f\<lparr>hAdjustmentFactor := dim_hAdjustmentFactor (canvasDimensions f),
               vAdjustmentFactor := dim_vAdjustmentFactor (canvasDimensions f),
               store := store f @ replicate (nat H) (replicate (nat W) 0),
               canvasMatrix := [length (store f) ..< length (store f) + nat H]\<rparr>)"
    using w h by (simp add: newRows_def)
  finally show ?thesis by (simp add: mw mh)
qed

lemma calculateCanvasMatrix_Inl:
  assumes "spec_boxes (engine f) = []"
  shows "calculateCanvasMatrix f = (Inl TypeError, f)"
  using assms calculateMatrixDimensions_empty [of f]
  by (simp add: calculateCanvasMatrix_def allCoords_spec_boxes)

section \<open>The routing matrix\<close>

lemma getCanvasMatrix_cached:
  "canvasMatrix f \<noteq> [] \<Longrightarrow> getCanvasMatrix f = (Inr (canvasMatrix f), f)"
  by (simp add: getCanvasMatrix_def)

lemma getCanvasMatrix_fresh:
  assumes "canvasMatrix f = []" and "spec_boxes (engine f) \<noteq> []" and "0 < ROUTING_SCALING_FACTOR f"
  shows "getCanvasMatrix f =
     (Inr [length (store f) ..< length (store f) + matrixHeight f],
      f\<lparr>hAdjustmentFactor := dim_hAdjustmentFactor (canvasDimensions f),
        vAdjustmentFactor := dim_vAdjustmentFactor (canvasDimensions f),
        store := store f @ replicate (matrixHeight f) (replicate (matrixWidth f) 0),
        canvasMatrix := [length (store f) ..< length (store f) + matrixHeight f]\<rparr>)"
  using assms(1) by (simp add: getCanvasMatrix_def calculateCanvasMatrix_Inr [OF assms(2,3)])

lemma getCanvasMatrix_throws:
  assumes "canvasMatrix f = []" and "spec_boxes (engine f) = []"
  shows "getCanvasMatrix f = (Inl TypeError, f)"
  using assms(1) by (simp add: getCanvasMatrix_def calculateCanvasMatrix_Inl [OF assms(2)])

lemma markedBy_cong:
  assumes "hAdjustmentFactor g = hAdjustmentFactor f" "vAdjustmentFactor g = vAdjustmentFactor f"
    "ROUTING_SCALING_FACTOR g = ROUTING_SCALING_FACTOR f"
  shows "markedBy g els = markedBy f els"
proof -
  have "translated g = translated f"
    by (rule ext) (simp add: translated_def translateRoutingX_def translateRoutingY_def assms)
  then show ?thesis by (simp add: markedBy_def assms)
qed

lemma markPorts_markNodes_obstacles:
  assumes "distinct m"
  shows "marks m (markedBy f (obstacles (engine f))) f (markPorts m (markNodes m f))"
  using marks_nodes_ports [OF assms, of f] by (simp add: obstacles_def)

lemma marks_Nil:
  assumes "marks [] T f g"
  shows "g = f"
proof -
  have len: "length (store g) = length (store f)" using assms by (simp add: marks_def)
  have row: "row_at (store g) a = row_at (store f) a" for a using assms by (simp add: marks_def)
  have "store g = store f"
  proof (rule nth_equalityI [OF len])
    fix i assume "i < length (store g)"
    then show "store g ! i = store f ! i" using row [of i] len by (simp add: row_at_def)
  qed
  moreover have "g = f\<lparr>store := store g\<rparr>" using assms by (simp add: marks_def)
  ultimately show ?thesis by simp
qed

lemma calculateRoutingMatrix_throws:
  "getCanvasMatrix f = (Inl e, f1) \<Longrightarrow> calculateRoutingMatrix f = (Inl e, f1)"
  by (simp add: calculateRoutingMatrix_def)

lemma calculateRoutingMatrix_result:
  assumes gc: "getCanvasMatrix f = (Inr cm, f1)"
  defines "n \<equiv> length (store f1)"
  defines "f' \<equiv> snd (calculateRoutingMatrix f)"
  shows "calculateRoutingMatrix f = (Inr (), f')"
    and "routingMatrix f' = [n ..< n + length cm]"
    and "canvasMatrix f' = canvasMatrix f1"
    and "hAdjustmentFactor f' = hAdjustmentFactor f1"
    and "vAdjustmentFactor f' = vAdjustmentFactor f1"
    and "ROUTING_SCALING_FACTOR f' = ROUTING_SCALING_FACTOR f1"
    and "engine f' = engine f1"
    and "length (store f') = n + length cm"
    and "\<And>a. a < n \<Longrightarrow> row_at (store f') a = row_at (store f1) a"
    and "\<And>r. r < length cm \<Longrightarrow>
           length (row_at (store f') (routingMatrix f' ! r)) = length (row_at (store f1) (cm ! r))"
    and "\<And>r c. r < length cm \<Longrightarrow> c < length (row_at (store f1) (cm ! r)) \<Longrightarrow>
           cellAt f' (routingMatrix f') r c =
             (if (real c, real r) \<in> markedBy f1 (obstacles (engine f1)) then 1 else cellAt f1 cm r c)"
    and "cm = [] \<Longrightarrow> f' = f1\<lparr>routingMatrix := []\<rparr>"
    and "f' = (markPorts (routingMatrix f') (markNodes (routingMatrix f') (snd (cloneDeep cm f1))))
               \<lparr>routingMatrix := routingMatrix f'\<rparr>"
proof -
  define m where "m = [n ..< n + length cm]"
  define f2 where "f2 = f1\<lparr>store := store f1 @ map (row_at (store f1)) cm\<rparr>"
  define f4 where "f4 = markPorts m (markNodes m f2)"
  have res: "calculateRoutingMatrix f = (Inr (), f4\<lparr>routingMatrix := m\<rparr>)"
    by (simp add: calculateRoutingMatrix_def gc cloneDeep_def newRows_def Let_def
        f4_def f2_def m_def n_def)
  then have f': "f' = f4\<lparr>routingMatrix := m\<rparr>" by (simp add: f'_def)
  show "calculateRoutingMatrix f = (Inr (), f')" using res f' by simp
  have dm: "distinct m" by (simp add: m_def)
  have mk: "marks m (markedBy f2 (obstacles (engine f2))) f2 f4"
    unfolding f4_def by (rule markPorts_markNodes_obstacles [OF dm])
  have T: "markedBy f2 (obstacles (engine f2)) = markedBy f1 (obstacles (engine f1))"
    using markedBy_cong [of f2 f1] by (simp add: f2_def)
  note fld = marks_fields [OF mk]
  show "routingMatrix f' = [n ..< n + length cm]" by (simp add: f' m_def)
  show "canvasMatrix f' = canvasMatrix f1" using fld by (simp add: f' f2_def)
  show "hAdjustmentFactor f' = hAdjustmentFactor f1" using fld by (simp add: f' f2_def)
  show "vAdjustmentFactor f' = vAdjustmentFactor f1" using fld by (simp add: f' f2_def)
  show "ROUTING_SCALING_FACTOR f' = ROUTING_SCALING_FACTOR f1" using fld by (simp add: f' f2_def)
  show "engine f' = engine f1" using fld by (simp add: f' f2_def)
  show "f' = f1\<lparr>routingMatrix := []\<rparr>" if "cm = []"
  proof -
    have "m = []" "f2 = f1" using that by (simp_all add: m_def f2_def)
    then have "f4 = f1" using marks_Nil [of _ f2 f4] mk by simp
    then show ?thesis using \<open>m = []\<close> by (simp add: f')
  qed
  have "snd (cloneDeep cm f1) = f2" by (simp add: cloneDeep_def newRows_def f2_def)
  then show "f' = (markPorts (routingMatrix f') (markNodes (routingMatrix f') (snd (cloneDeep cm f1))))
               \<lparr>routingMatrix := routingMatrix f'\<rparr>"
    by (simp add: f' f4_def)
  have len4: "length (store f4) = length (store f2)" using mk by (simp add: marks_def)
  show "length (store f') = n + length cm" using len4 by (simp add: f' f2_def n_def)
  have old2: "row_at (store f2) a = row_at (store f1) a" if "a < n" for a
    using that by (simp add: f2_def row_at_def n_def nth_append)
  have new2: "row_at (store f2) (m ! r) = row_at (store f1) (cm ! r)" if "r < length cm" for r
    using that by (simp add: f2_def row_at_def n_def m_def nth_append)
  show "row_at (store f') a = row_at (store f1) a" if "a < n" for a
  proof -
    have "a \<notin> set m" using that by (simp add: m_def)
    then have "row_at (store f4) a = row_at (store f2) a" using mk by (simp add: marks_def)
    then show ?thesis using old2 [OF that] by (simp add: f')
  qed
  show "length (row_at (store f') (routingMatrix f' ! r)) = length (row_at (store f1) (cm ! r))"
    if "r < length cm" for r
  proof -
    have "length (row_at (store f4) (m ! r)) = length (row_at (store f2) (m ! r))"
      using mk by (simp add: marks_def)
    then show ?thesis using new2 [OF that] by (simp add: f')
  qed
  show "cellAt f' (routingMatrix f') r c =
          (if (real c, real r) \<in> markedBy f1 (obstacles (engine f1)) then 1 else cellAt f1 cm r c)"
    if "r < length cm" "c < length (row_at (store f1) (cm ! r))" for r c
  proof -
    have r: "r < length m" using that by (simp add: m_def)
    have c: "c < length (row_at (store f2) (m ! r))" using that new2 by simp
    have "cellAt f4 m r c =
            (if (real c, real r) \<in> markedBy f2 (obstacles (engine f2)) then 1 else cellAt f2 m r c)"
      using mk r c by (simp add: marks_def)
    moreover have "cellAt f2 m r c = cellAt f1 cm r c"
      using new2 [OF that(1)] by (simp add: cellAt_def)
    moreover have "cellAt f' (routingMatrix f') r c = cellAt f4 m r c"
      by (simp add: f' cellAt_def)
    ultimately show ?thesis using T by simp
  qed
qed

section \<open>Evaluation of the concrete diagrams\<close>

lemma smallScene_boxes:
  "spec_boxes smallScene =
     [\<lparr>box_x = - 7, box_width = 4, box_y = 3, box_height = 2\<rparr>,
      \<lparr>box_x = 12, box_width = 2, box_y = 6, box_height = 2\<rparr>,
      \<lparr>box_x = 1, box_width = 0, box_y = 1, box_height = 0\<rparr>]"
  by (simp add: spec_boxes_def smallScene_def)

lemma smallScene_canvas: "offsetWidth (canvas smallScene) = 20" "offsetHeight (canvas smallScene) = 10"
  by (simp_all add: smallScene_def)

lemma scene3_canvas: "offsetWidth (canvas scene3) = 800" "offsetHeight (canvas scene3) = 600"
  by (simp_all add: scene3_def)

lemma smallScene_dims:
  "canvasDimensions (newFactory smallScene) =
     \<lparr>dim_width = 30, dim_hAdjustmentFactor = 3, dim_height = 10, dim_vAdjustmentFactor = 1\<rparr>"
  by (simp add: canvasDimensions_def newFactory_def smallScene_boxes spec_dimensions_def
      spec_min_def spec_max_def smallScene_canvas)

lemma scene3_boxes:
  "spec_boxes scene3 = [\<lparr>box_x = 100, box_width = 50, box_y = 100, box_height = 50\<rparr>]"
  by (simp add: spec_boxes_def scene3_def)

lemma scene3_dims:
  "canvasDimensions (newFactory scene3) =
     \<lparr>dim_width = 800, dim_hAdjustmentFactor = 1, dim_height = 600, dim_vAdjustmentFactor = 1\<rparr>"
  by (simp add: canvasDimensions_def newFactory_def scene3_boxes spec_dimensions_def
      spec_min_def spec_max_def scene3_canvas)

lemma calc_small: "calculateMatrixDimensions (newFactory smallScene) = 
  Inr \<lparr>dim_width = 30, dim_hAdjustmentFactor = 3, dim_height = 10, dim_vAdjustmentFactor = 1\<rparr>"
  by (simp add: calculateMatrixDimensions_def allCoords_def allNodesCoords_def allPortsCoords_def
    allPointsCoords_def newFactory_def smallScene_def)

section \<open>Dimensions and translated indices\<close>

lemma set_elementCells:
  "set (elementCells s el) =
     {\<lfloor>box_x el / s\<rfloor> - 1 .. \<lceil>(box_x el + box_width el) / s\<rceil> + 1} \<times>
     {\<lfloor>box_y el / s\<rfloor> - 1 .. \<lceil>(box_y el + box_height el) / s\<rceil>}"
  by (auto simp: elementCells_def Let_def)



section \<open>Cells of a freshly computed routing matrix\<close>

lemma translated_image_mem:
  assumes "hAdjustmentFactor f = of_int a" and "vAdjustmentFactor f = of_int b"
  shows "(real c, real r) \<in> translated f ` S \<longleftrightarrow> (int c - a, int r - b) \<in> S"
proof
  assume "(real c, real r) \<in> translated f ` S"
  then obtain x y where xy: "(x, y) \<in> S" "real c = of_int x + of_int a" "real r = of_int y + of_int b"
    by (auto simp: translated_def translateRoutingX_def translateRoutingY_def assms)
  have "of_int (int c) = (of_int (x + a) :: real)" using xy(2) by simp
  then have 1: "int c = x + a" by (simp only: of_int_eq_iff)
  have "of_int (int r) = (of_int (y + b) :: real)" using xy(3) by simp
  then have 2: "int r = y + b" by (simp only: of_int_eq_iff)
  show "(int c - a, int r - b) \<in> S" using xy(1) 1 2 by simp
next
  assume m: "(int c - a, int r - b) \<in> S"
  have "translated f (int c - a, int r - b) = (real c, real r)"
    by (simp add: translated_def translateRoutingX_def translateRoutingY_def assms)
  then show "(real c, real r) \<in> translated f ` S" using m by (metis imageI)
qed

lemma getRoutingMatrix_cached:
  "routingMatrix f \<noteq> [] \<Longrightarrow> getRoutingMatrix f = (Inr (routingMatrix f), f)"
  by (simp add: getRoutingMatrix_def)

lemma getRoutingMatrix_fresh:
  assumes "routingMatrix f = []" and "getCanvasMatrix f = (Inr cm, f1)"
  shows "getRoutingMatrix f =
           (Inr (routingMatrix (snd (calculateRoutingMatrix f))), snd (calculateRoutingMatrix f))"
proof -
  obtain f' where f': "calculateRoutingMatrix f = (Inr (), f')"
    using calculateRoutingMatrix_result(1) [OF assms(2)] by blast
  show ?thesis using assms(1) by (simp add: getRoutingMatrix_def f')
qed

lemma getRoutingMatrix_throws:
  assumes "routingMatrix f = []" and "getCanvasMatrix f = (Inl e, f1)"
  shows "getRoutingMatrix f = (Inl e, f1)"
  using assms(1) calculateRoutingMatrix_throws [OF assms(2)]
  by (simp add: getRoutingMatrix_def)

lemma calculateRoutingMatrix_fresh:
  assumes c: "canvasMatrix f = []"
    and b: "spec_boxes (engine f) \<noteq> []" and s: "0 < ROUTING_SCALING_FACTOR f"
  defines "fR \<equiv> snd (calculateRoutingMatrix f)"
  shows "calculateRoutingMatrix f = (Inr (), fR)"
    and "length (routingMatrix fR) = matrixHeight f"
    and "canvasMatrix fR = [length (store f) ..< length (store f) + matrixHeight f]"
    and "hAdjustmentFactor fR = dim_hAdjustmentFactor (canvasDimensions f)"
    and "vAdjustmentFactor fR = dim_vAdjustmentFactor (canvasDimensions f)"
    and "contents fR (canvasMatrix fR) = replicate (matrixHeight f) (replicate (matrixWidth f) 0)"
    and "\<And>i. i < matrixHeight f \<Longrightarrow>
           length (row_at (store fR) (routingMatrix fR ! i)) = matrixWidth f"
    and "\<And>i j. i < matrixHeight f \<Longrightarrow> j < matrixWidth f \<Longrightarrow>
           cellAt fR (routingMatrix fR) i j =
             (if (real j, real i) \<in> markedBy fR (obstacles (engine f)) then 1 else 0)"
    and "ROUTING_SCALING_FACTOR fR = ROUTING_SCALING_FACTOR f"
    and "engine fR = engine f"
    and "routingMatrix fR =
           [length (store f) + matrixHeight f ..< length (store f) + matrixHeight f + matrixHeight f]"
    and "\<And>a. a < length (store f) \<Longrightarrow> row_at (store fR) a = row_at (store f) a"
proof -
  let ?n = "length (store f)"
  let ?cm = "[?n ..< ?n + matrixHeight f]"
  let ?f1 = "f\<lparr>hAdjustmentFactor := dim_hAdjustmentFactor (canvasDimensions f),
        vAdjustmentFactor := dim_vAdjustmentFactor (canvasDimensions f),
        store := store f @ replicate (matrixHeight f) (replicate (matrixWidth f) 0),
        canvasMatrix := ?cm\<rparr>"
  have gc: "getCanvasMatrix f = (Inr ?cm, ?f1)" by (rule getCanvasMatrix_fresh [OF c b s])
  note res = calculateRoutingMatrix_result [OF gc, folded fR_def]
  show "calculateRoutingMatrix f = (Inr (), fR)" by (rule res(1))
  show "length (routingMatrix fR) = matrixHeight f" by (simp add: res(2))
  show "routingMatrix fR =
           [length (store f) + matrixHeight f ..< length (store f) + matrixHeight f + matrixHeight f]"
    by (simp add: res(2))
  show cR: "canvasMatrix fR = ?cm" by (simp add: res(3))
  show "hAdjustmentFactor fR = dim_hAdjustmentFactor (canvasDimensions f)" by (simp add: res(4))
  show "vAdjustmentFactor fR = dim_vAdjustmentFactor (canvasDimensions f)" by (simp add: res(5))
  show "ROUTING_SCALING_FACTOR fR = ROUTING_SCALING_FACTOR f" by (simp add: res(6))
  show "engine fR = engine f" by (simp add: res(7))
  have row1: "row_at (store ?f1) (?cm ! i) = replicate (matrixWidth f) 0" if "i < matrixHeight f" for i
    using that by (simp add: row_at_def nth_append)
  have old: "row_at (store fR) a = row_at (store ?f1) a" if "a < ?n + matrixHeight f" for a
    using res(9) [of a] that by simp
  show "row_at (store fR) a = row_at (store f) a" if "a < length (store f)" for a
    using old [of a] that by (simp add: row_at_def nth_append)
  have "map (row_at (store fR)) ?cm = map (row_at (store ?f1)) ?cm"
    using old by (intro map_cong refl) simp
  also have "\<dots> = replicate (matrixHeight f) (replicate (matrixWidth f) 0)"
    by (rule nth_equalityI) (simp_all add: row_at_def nth_append)
  finally show "contents fR (canvasMatrix fR) = replicate (matrixHeight f) (replicate (matrixWidth f) 0)"
    by (simp add: contents_def cR)
  show "length (row_at (store fR) (routingMatrix fR ! i)) = matrixWidth f" if "i < matrixHeight f" for i
    using res(10) [of i] that row1 [OF that] by simp
  have T: "markedBy ?f1 (obstacles (engine ?f1)) = markedBy fR (obstacles (engine f))"
    using markedBy_cong [of ?f1 fR "obstacles (engine f)"] res(4,5,6) by simp
  show "cellAt fR (routingMatrix fR) i j =
             (if (real j, real i) \<in> markedBy fR (obstacles (engine f)) then 1 else 0)"
    if "i < matrixHeight f" "j < matrixWidth f" for i j
  proof -
    have "cellAt ?f1 ?cm i j = 0" using that row1 [OF that(1)] by (simp add: cellAt_def)
    then show ?thesis using res(11) [of i j] that row1 [OF that(1)] T by simp
  qed
qed

lemma getRoutingMatrix_calculated:
  assumes "canvasMatrix f = []" and "routingMatrix f = []"
    and "spec_boxes (engine f) \<noteq> []" and "0 < ROUTING_SCALING_FACTOR f"
  shows "getRoutingMatrix f =
           (Inr (routingMatrix (snd (calculateRoutingMatrix f))), snd (calculateRoutingMatrix f))"
proof -
  obtain f' where f': "calculateRoutingMatrix f = (Inr (), f')"
    using calculateRoutingMatrix_fresh(1) [OF assms(1,3,4)] by blast
  show ?thesis using assms(2) by (simp add: getRoutingMatrix_def f')
qed

section \<open>The scenario of the specification\<close>

lemma scene3_fresh:
  "canvasMatrix (newFactory scene3) = []" "routingMatrix (newFactory scene3) = []"
  "spec_boxes (engine (newFactory scene3)) \<noteq> []" "0 < ROUTING_SCALING_FACTOR (newFactory scene3)"
  "store (newFactory scene3) = []" "ROUTING_SCALING_FACTOR (newFactory scene3) = 5"
  "engine (newFactory scene3) = scene3"
  by (simp_all add: newFactory_def scene3_boxes)

lemma scene3_size: "matrixHeight (newFactory scene3) = 120" "matrixWidth (newFactory scene3) = 160"
  by (simp_all add: matrixHeight_def matrixWidth_def scene3_dims scene3_fresh)

lemma scene3_obstacles: "obstacles scene3 = [node3]"
  by (simp add: obstacles_def portElements_def scene3_def node3_def)

lemma node3_cells: "set (elementCells 5 node3) = {19..31} \<times> {19..30}"
  by (simp add: set_elementCells node3_def)

lemma routed3_calc: "routed3 = snd (calculateRoutingMatrix (newFactory scene3))"
  by (simp add: routed3_def getRoutingMatrix_calculated [OF scene3_fresh(1-4)])

lemma routed3_adjustment:
  "hAdjustmentFactor routed3 = of_int 1" "vAdjustmentFactor routed3 = of_int 1"
  "ROUTING_SCALING_FACTOR routed3 = 5"
  using calculateRoutingMatrix_fresh(4,5,9) [OF scene3_fresh(1,3,4), folded routed3_calc]
  by (simp_all add: scene3_dims scene3_fresh)

lemma routed3_marked:
  "(real j, real i) \<in> markedBy routed3 (obstacles scene3) \<longleftrightarrow>
     20 \<le> j \<and> j \<le> 32 \<and> 20 \<le> i \<and> i \<le> 31"
proof -
  have "(real j, real i) \<in> markedBy routed3 (obstacles scene3) \<longleftrightarrow>
        (int j - 1, int i - 1) \<in> {19..31} \<times> {19..30}"
    using translated_image_mem [OF routed3_adjustment(1,2), of j i "set (elementCells 5 node3)"]
    by (simp add: markedBy_def scene3_obstacles routed3_adjustment(3) node3_cells)
  then show ?thesis by auto
qed

lemma routed3_cell:
  assumes "i < 120" and "j < 160"
  shows "cellAt routed3 (routingMatrix routed3) i j =
           (if 20 \<le> j \<and> j \<le> 32 \<and> 20 \<le> i \<and> i \<le> 31 then 1 else 0)"
  using calculateRoutingMatrix_fresh(8) [OF scene3_fresh(1,3,4), folded routed3_calc, of i j] assms
  by (simp add: scene3_size scene3_fresh(7) routed3_marked)

lemma routed3_shape:
  "getRoutingMatrix (newFactory scene3) = (Inr (routingMatrix routed3), routed3)"
  "length (routingMatrix routed3) = 120"
  "contents routed3 (canvasMatrix routed3) = replicate 120 (replicate 160 0)"
  "i < 120 \<Longrightarrow> length (row_at (store routed3) (routingMatrix routed3 ! i)) = 160"
  using getRoutingMatrix_calculated [OF scene3_fresh(1-4), folded routed3_calc]
    calculateRoutingMatrix_fresh(2,6) [OF scene3_fresh(1,3,4), folded routed3_calc]
    calculateRoutingMatrix_fresh(7) [OF scene3_fresh(1,3,4), folded routed3_calc, of i]
  by (simp_all add: scene3_size)

section \<open>Contents of matrices\<close>

lemma contents_cong:
  assumes "\<And>a. a \<in> set m \<Longrightarrow> row_at (store g) a = row_at (store f) a"
  shows "contents g m = contents f m"
  unfolding contents_def using assms by (intro map_cong refl)

lemma allFree_replicate: "allFree (replicate k (replicate w 0))"
  by (simp add: allFree_def list_all_iff)

section \<open>Repeated reads\<close>

lemma canvasDimensions_cong:
  "engine g = engine f \<Longrightarrow> ROUTING_SCALING_FACTOR g = ROUTING_SCALING_FACTOR f \<Longrightarrow>
   canvasDimensions g = canvasDimensions f"
  by (simp add: canvasDimensions_def)

lemma matrixHeight_cong:
  "engine g = engine f \<Longrightarrow> ROUTING_SCALING_FACTOR g = ROUTING_SCALING_FACTOR f \<Longrightarrow>
   matrixHeight g = matrixHeight f"
  using canvasDimensions_cong [of g f] by (simp add: matrixHeight_def)

lemma matrixWidth_cong:
  "engine g = engine f \<Longrightarrow> ROUTING_SCALING_FACTOR g = ROUTING_SCALING_FACTOR f \<Longrightarrow>
   matrixWidth g = matrixWidth f"
  using canvasDimensions_cong [of g f] by (simp add: matrixWidth_def)

lemma getCanvasMatrix_field:
  "getCanvasMatrix f = (Inr m, f') \<Longrightarrow> canvasMatrix f' = m"
  by (auto simp: getCanvasMatrix_def split: if_splits prod.splits sum.splits)

lemma getRoutingMatrix_field:
  "getRoutingMatrix f = (Inr m, f') \<Longrightarrow> routingMatrix f' = m"
  by (auto simp: getRoutingMatrix_def split: if_splits prod.splits sum.splits)

lemma calculateCanvasMatrix_frame:
  "routingMatrix (snd (calculateCanvasMatrix f)) = routingMatrix f \<and>
   engine (snd (calculateCanvasMatrix f)) = engine f \<and>
   ROUTING_SCALING_FACTOR (snd (calculateCanvasMatrix f)) = ROUTING_SCALING_FACTOR f"
proof (cases "calculateMatrixDimensions f")
  case (Inl e)
  then show ?thesis by (simp add: calculateCanvasMatrix_def)
next
  case (Inr d)
  then show ?thesis by (simp add: calculateCanvasMatrix_def newRows_def Let_def)
qed

lemma getCanvasMatrix_snd:
  "snd (getCanvasMatrix f) = (if canvasMatrix f = [] then snd (calculateCanvasMatrix f) else f)"
  by (simp add: getCanvasMatrix_def split: prod.splits sum.splits)

lemma getCanvasMatrix_frame:
  assumes "getCanvasMatrix f = (r, f1)"
  shows "routingMatrix f1 = routingMatrix f \<and> engine f1 = engine f \<and>
         ROUTING_SCALING_FACTOR f1 = ROUTING_SCALING_FACTOR f"
proof -
  have "f1 = snd (getCanvasMatrix f)" using assms by simp
  then show ?thesis using calculateCanvasMatrix_frame [of f] by (simp add: getCanvasMatrix_snd)
qed

lemma getCanvasMatrix_twice:
  assumes s: "0 < ROUTING_SCALING_FACTOR f" and g: "getCanvasMatrix f = (Inr m, f')"
  shows "getCanvasMatrix f' = (Inr m, f')"
proof (cases "canvasMatrix f = []")
  case False
  then have "m = canvasMatrix f" "f' = f" using g by (auto simp: getCanvasMatrix_cached)
  then show ?thesis using False by (simp add: getCanvasMatrix_cached)
next
  case True
  have b: "spec_boxes (engine f) \<noteq> []"
    using g getCanvasMatrix_throws [OF True] by auto
  have fr: "getCanvasMatrix f =
     (Inr [length (store f) ..< length (store f) + matrixHeight f],
      f\<lparr>hAdjustmentFactor := dim_hAdjustmentFactor (canvasDimensions f),
        vAdjustmentFactor := dim_vAdjustmentFactor (canvasDimensions f),
        store := store f @ replicate (matrixHeight f) (replicate (matrixWidth f) 0),
        canvasMatrix := [length (store f) ..< length (store f) + matrixHeight f]\<rparr>)"
    by (rule getCanvasMatrix_fresh [OF True b s])
  have "m = projr (fst (getCanvasMatrix f))" "f' = snd (getCanvasMatrix f)"
    using g by simp_all
  then have m: "m = [length (store f) ..< length (store f) + matrixHeight f]"
    and f': "f' = f\<lparr>hAdjustmentFactor := dim_hAdjustmentFactor (canvasDimensions f),
        vAdjustmentFactor := dim_vAdjustmentFactor (canvasDimensions f),
        store := store f @ replicate (matrixHeight f) (replicate (matrixWidth f) 0),
        canvasMatrix := [length (store f) ..< length (store f) + matrixHeight f]\<rparr>"
    by (simp_all add: fr)
  have cf: "canvasMatrix f' = m" by (simp add: f' m)
  have ef: "engine f' = engine f" "ROUTING_SCALING_FACTOR f' = ROUTING_SCALING_FACTOR f"
    by (simp_all add: f')
  show ?thesis
  proof (cases "matrixHeight f = 0")
    case False
    then have "canvasMatrix f' \<noteq> []" by (simp add: cf m)
    then show ?thesis using getCanvasMatrix_cached [of f'] cf by simp
  next
    case h: True
    have c': "canvasMatrix f' = []" using h by (simp add: cf m)
    have b': "spec_boxes (engine f') \<noteq> []" using b by (simp add: ef)
    have s': "0 < ROUTING_SCALING_FACTOR f'" using s by (simp add: ef)
    have d: "canvasDimensions f' = canvasDimensions f" by (rule canvasDimensions_cong [OF ef])
    have mh: "matrixHeight f' = 0" using matrixHeight_cong [OF ef] h by simp
    have hv: "hAdjustmentFactor f' = dim_hAdjustmentFactor (canvasDimensions f)"
      "vAdjustmentFactor f' = dim_vAdjustmentFactor (canvasDimensions f)"
      by (simp_all add: f')
    have "f'\<lparr>hAdjustmentFactor := hAdjustmentFactor f', vAdjustmentFactor := vAdjustmentFactor f',
             store := store f', canvasMatrix := canvasMatrix f'\<rparr> = f'"
      by simp
    then have same: "f'\<lparr>hAdjustmentFactor := dim_hAdjustmentFactor (canvasDimensions f),
             vAdjustmentFactor := dim_vAdjustmentFactor (canvasDimensions f),
             store := store f', canvasMatrix := []\<rparr> = f'"
      by (simp only: hv c')
    have "getCanvasMatrix f' = (Inr [], f'\<lparr>hAdjustmentFactor := dim_hAdjustmentFactor (canvasDimensions f),
             vAdjustmentFactor := dim_vAdjustmentFactor (canvasDimensions f),
             store := store f', canvasMatrix := []\<rparr>)"
      using getCanvasMatrix_fresh [OF c' b' s'] by (simp only: d mh replicate_0 append_Nil2 add_0_right upt_conv_Nil [OF order_refl])
    then show ?thesis using h by (simp only: same m add_0_right upt_conv_Nil [OF order_refl])
  qed
qed

lemma calculateRoutingMatrix_no_rows:
  assumes "getCanvasMatrix f = (Inr [], f1)" and "routingMatrix f = []"
  shows "calculateRoutingMatrix f = (Inr (), f1)"
proof -
  have "routingMatrix f1 = []" using getCanvasMatrix_frame [OF assms(1)] assms(2) by simp
  then have "f1\<lparr>routingMatrix := []\<rparr> = f1" by simp
  then show ?thesis
    using calculateRoutingMatrix_result(1,12) [OF assms(1)] by simp
qed

lemma getRoutingMatrix_twice:
  assumes s: "0 < ROUTING_SCALING_FACTOR f" and g: "getRoutingMatrix f = (Inr m, f')"
  shows "getRoutingMatrix f' = (Inr m, f')"
proof (cases "routingMatrix f = []")
  case False
  then have "m = routingMatrix f" "f' = f" using g by (auto simp: getRoutingMatrix_cached)
  then show ?thesis using False by (simp add: getRoutingMatrix_cached)
next
  case True
  obtain r f1 where gc: "getCanvasMatrix f = (r, f1)" by (cases "getCanvasMatrix f")
  show ?thesis
  proof (cases r)
    case (Inl e)
    then show ?thesis using g getRoutingMatrix_throws [OF True] gc by simp
  next
    case (Inr cm)
    have gc': "getCanvasMatrix f = (Inr cm, f1)" using gc Inr by simp
    note res = calculateRoutingMatrix_result [OF gc']
    have gr: "getRoutingMatrix f =
           (Inr (routingMatrix (snd (calculateRoutingMatrix f))), snd (calculateRoutingMatrix f))"
      by (rule getRoutingMatrix_fresh [OF True gc'])
    then have f': "f' = snd (calculateRoutingMatrix f)" and m: "m = routingMatrix f'"
      using g by simp_all
    show ?thesis
    proof (cases "cm = []")
      case False
      then have "routingMatrix f' \<noteq> []" using res(2) by (simp add: f')
      then show ?thesis using getRoutingMatrix_cached [of f'] m by simp
    next
      case e: True
      have 1: "calculateRoutingMatrix f = (Inr (), f1)"
        using calculateRoutingMatrix_no_rows [OF _ True] gc' e by simp
      then have f1: "f' = f1" by (simp add: f')
      have m0: "m = []" using res(2) e by (simp add: m f')
      have r1: "routingMatrix f1 = []" using m m0 f1 by simp
      have s1: "0 < ROUTING_SCALING_FACTOR f1" using getCanvasMatrix_frame [OF gc'] s by simp
      have gc1: "getCanvasMatrix f1 = (Inr [], f1)"
        using getCanvasMatrix_twice [OF s gc'] e by simp
      have "calculateRoutingMatrix f1 = (Inr (), f1)"
        by (rule calculateRoutingMatrix_no_rows [OF gc1 r1])
      then show ?thesis using r1 by (simp add: getRoutingMatrix_def f1 m0)
    qed
  qed
qed

section \<open>The diagram without extent\<close>

lemma newFactory_fields:
  "canvasMatrix (newFactory e) = []" "routingMatrix (newFactory e) = []"
  "store (newFactory e) = []" "ROUTING_SCALING_FACTOR (newFactory e) = 5"
  "engine (newFactory e) = e" "0 < ROUTING_SCALING_FACTOR (newFactory e)"
  by (simp_all add: newFactory_def)

lemma flatScene_boxes:
  "spec_boxes flatScene = [\<lparr>box_x = 0, box_width = 0, box_y = 0, box_height = 0\<rparr>]"
  by (simp add: spec_boxes_def flatScene_def)

lemma flatScene_canvas: "offsetWidth (canvas flatScene) = 0" "offsetHeight (canvas flatScene) = 0"
  by (simp_all add: flatScene_def)

lemma flatScene_dims:
  "canvasDimensions (newFactory flatScene) =
     \<lparr>dim_width = 0, dim_hAdjustmentFactor = 1, dim_height = 0, dim_vAdjustmentFactor = 1\<rparr>"
  by (simp add: canvasDimensions_def newFactory_fields flatScene_boxes spec_dimensions_def
      spec_min_def spec_max_def flatScene_canvas)

lemma flatScene_size: "matrixHeight (newFactory flatScene) = 0" "matrixWidth (newFactory flatScene) = 0"
  by (simp_all add: matrixHeight_def matrixWidth_def flatScene_dims newFactory_fields)

lemma smallScene_size: "matrixHeight (newFactory smallScene) = 2" "matrixWidth (newFactory smallScene) = 6"
  by (simp_all add: matrixHeight_def matrixWidth_def smallScene_dims newFactory_fields)

lemma smallScene_nonempty: "spec_boxes smallScene \<noteq> []" "spec_boxes flatScene \<noteq> []"
  by (simp_all add: smallScene_boxes flatScene_boxes)

lemma flat_first_canvas:
  "getCanvasMatrix (newFactory flatScene) = (Inr [], flatCanvas)"
  "canvasMatrix flatCanvas = []" "store flatCanvas = []" "ROUTING_SCALING_FACTOR flatCanvas = 5"
  "routingMatrix flatCanvas = []"
proof -
  have g: "getCanvasMatrix (newFactory flatScene) =
     (Inr [], (newFactory flatScene)\<lparr>hAdjustmentFactor := 1, vAdjustmentFactor := 1,
                 store := [], canvasMatrix := []\<rparr>)"
    using getCanvasMatrix_fresh [of "newFactory flatScene"]
    by (simp add: newFactory_fields flatScene_boxes flatScene_dims flatScene_size)
  then have f: "flatCanvas = (newFactory flatScene)\<lparr>hAdjustmentFactor := 1, vAdjustmentFactor := 1,
                 store := [], canvasMatrix := []\<rparr>"
    by (simp add: flatCanvas_def)
  show "getCanvasMatrix (newFactory flatScene) = (Inr [], flatCanvas)" using g f by simp
  show "canvasMatrix flatCanvas = []" "store flatCanvas = []" "ROUTING_SCALING_FACTOR flatCanvas = 5"
    "routingMatrix flatCanvas = []"
    by (simp_all add: f newFactory_fields)
qed

lemma flat_first_routing:
  "getRoutingMatrix (newFactory flatScene) = (Inr [], flatCanvas)" "flatRouted = flatCanvas"
proof -
  have "calculateRoutingMatrix (newFactory flatScene) = (Inr (), flatCanvas)"
    by (rule calculateRoutingMatrix_no_rows [OF flat_first_canvas(1) newFactory_fields(2)])
  then show "getRoutingMatrix (newFactory flatScene) = (Inr [], flatCanvas)"
    by (simp add: getRoutingMatrix_def newFactory_fields flat_first_canvas)
  then show "flatRouted = flatCanvas" by (simp add: flatRouted_def)
qed

lemma resized_canvas_read:
  "fst (getCanvasMatrix (flatCanvas\<lparr>engine := smallScene\<rparr>)) = Inr [0, 1]"
proof -
  let ?g = "flatCanvas\<lparr>engine := smallScene\<rparr>"
  have c: "canvasMatrix ?g = []" by (simp add: flat_first_canvas)
  have b: "spec_boxes (engine ?g) \<noteq> []" by (simp add: smallScene_nonempty)
  have s: "0 < ROUTING_SCALING_FACTOR ?g" by (simp add: flat_first_canvas)
  have h: "matrixHeight ?g = 2"
    using matrixHeight_cong [of ?g "newFactory smallScene"]
    by (simp add: newFactory_fields flat_first_canvas smallScene_size)
  show ?thesis
    unfolding getCanvasMatrix_fresh [OF c b s] by (simp add: h flat_first_canvas)
qed

lemma small_first_canvas:
  "getCanvasMatrix (newFactory smallScene) = (Inr [0, 1], smallCanvas)"
  "canvasMatrix smallCanvas = [0, 1]" "store smallCanvas = replicate 2 (replicate 6 0)"
  "ROUTING_SCALING_FACTOR smallCanvas = 5" "routingMatrix smallCanvas = []"
  "hAdjustmentFactor smallCanvas = 3" "vAdjustmentFactor smallCanvas = 1"
  "engine smallCanvas = smallScene"
proof -
  have g: "getCanvasMatrix (newFactory smallScene) =
     (Inr [0, 1], (newFactory smallScene)\<lparr>hAdjustmentFactor := 3, vAdjustmentFactor := 1,
                 store := replicate 2 (replicate 6 0), canvasMatrix := [0, 1]\<rparr>)"
    using getCanvasMatrix_fresh [of "newFactory smallScene"]
    by (simp add: newFactory_fields smallScene_boxes smallScene_dims smallScene_size)
  then have f: "smallCanvas = (newFactory smallScene)\<lparr>hAdjustmentFactor := 3, vAdjustmentFactor := 1,
                 store := replicate 2 (replicate 6 0), canvasMatrix := [0, 1]\<rparr>"
    by (simp add: smallCanvas_def)
  show "getCanvasMatrix (newFactory smallScene) = (Inr [0, 1], smallCanvas)" using g f by simp
  show "canvasMatrix smallCanvas = [0, 1]" "store smallCanvas = replicate 2 (replicate 6 0)"
    "ROUTING_SCALING_FACTOR smallCanvas = 5" "routingMatrix smallCanvas = []"
    "hAdjustmentFactor smallCanvas = 3" "vAdjustmentFactor smallCanvas = 1"
    "engine smallCanvas = smallScene"
    by (simp_all add: f newFactory_fields)
qed

section \<open>Negative coordinates\<close>





section \<open>The small diagram\<close>

lemma smallScene_obstacles:
  "obstacles smallScene = [smallNode, \<lparr>box_x = 12, box_width = 2, box_y = 6, box_height = 2\<rparr>]"
  by (simp add: obstacles_def portElements_def smallScene_def smallNode_def)

lemma smallNode_cells: "set (elementCells 5 smallNode) = {- 3 .. 1} \<times> {- 1 .. 1}"
  by (simp add: set_elementCells smallNode_def)

lemma small_routed:
  "getRoutingMatrix (newFactory smallScene) = (Inr [2, 3], smallRouted)"
  "routingMatrix smallRouted = [2, 3]" "canvasMatrix smallRouted = [0, 1]"
  "hAdjustmentFactor smallRouted = 3" "vAdjustmentFactor smallRouted = 1"
  "contents smallRouted (canvasMatrix smallRouted) = replicate 2 (replicate 6 0)"
proof -
  have b: "spec_boxes (engine (newFactory smallScene)) \<noteq> []"
    by (simp add: newFactory_fields smallScene_nonempty)
  note gr = getRoutingMatrix_calculated [OF newFactory_fields(1,2) b newFactory_fields(6)]
  have eq: "smallRouted = snd (calculateRoutingMatrix (newFactory smallScene))"
    by (simp add: smallRouted_def gr)
  note fr = calculateRoutingMatrix_fresh [OF newFactory_fields(1) b newFactory_fields(6), folded eq]
  show r: "routingMatrix smallRouted = [2, 3]"
    using fr(11) by (simp add: newFactory_fields smallScene_size upt_rec)
  show "getRoutingMatrix (newFactory smallScene) = (Inr [2, 3], smallRouted)"
    using gr r by (simp add: eq)
  show "canvasMatrix smallRouted = [0, 1]"
    using fr(3) by (simp add: newFactory_fields smallScene_size upt_rec)
  show "hAdjustmentFactor smallRouted = 3" "vAdjustmentFactor smallRouted = 1"
    using fr(4,5) by (simp_all add: smallScene_dims)
  show "contents smallRouted (canvasMatrix smallRouted) = replicate 2 (replicate 6 0)"
    using fr(6) by (simp add: smallScene_size)
qed

lemma smallCanvas_contents:
  "contents smallCanvas (canvasMatrix smallCanvas) = [replicate 6 0, replicate 6 0]"
  by (simp add: contents_def small_first_canvas row_at_def numeral_2_eq_2)

lemma smallCanvas_corner_marked:
  "(real 0, real 0) \<in> markedBy smallCanvas (obstacles smallScene)"
proof -
  have h: "hAdjustmentFactor smallCanvas = of_int 3" "vAdjustmentFactor smallCanvas = of_int 1"
    by (simp_all add: small_first_canvas)
  have "(real 0, real 0) \<in> translated smallCanvas ` set (elementCells 5 smallNode)"
    unfolding translated_image_mem [OF h] by (simp add: smallNode_cells)
  then show ?thesis
    by (simp add: markedBy_def smallScene_obstacles small_first_canvas)
qed

section \<open>Rounding to binary64\<close>

lemma pow2_powr: "pow2 k = 2 powr of_int k"
  by (simp add: pow2_def powr_int)

lemma pow2_pos: "0 < pow2 k"
  by (simp add: pow2_def)

lemma roundTiesToEven_of_int: "roundTiesToEven (of_int m) = m"
  by (simp add: roundTiesToEven_def)

lemma floor_log2_eq:
  assumes "pow2 e \<le> \<bar>x\<bar>" and "\<bar>x\<bar> < pow2 (e + 1)"
  shows "\<lfloor>log 2 \<bar>x\<bar>\<rfloor> = e"
proof -
  have "0 < \<bar>x\<bar>" using assms(1) pow2_pos [of e] by linarith
  then show ?thesis
    using assms floor_log_eq_powr_iff [of "\<bar>x\<bar>" 2 e] by (simp add: pow2_powr)
qed

lemma ulpExponent_normal:
  assumes "pow2 e \<le> \<bar>x\<bar>" and "\<bar>x\<bar> < pow2 (e + 1)" and "- 1022 \<le> e"
  shows "ulpExponent x = e - 52"
  using floor_log2_eq [OF assms(1,2)] assms(3) by (simp add: ulpExponent_def)

lemma binary64_eval:
  assumes "x \<noteq> 0" and "ulpExponent x = k" and "roundTiesToEven (x / pow2 k) = m"
    and "\<bar>of_int m * pow2 k\<bar> < 2 ^ 1024"
  shows "binary64 x = Some (of_int m * pow2 k)"
  using assms(1,4) unfolding binary64_def Let_def assms(2) assms(3) by simp

lemma binary64_tenth: "binary64 (1 / 10) = Some (3602879701896397 / 2 ^ 55)"
proof -
  have u: "ulpExponent (1 / 10) = - 56"
    using ulpExponent_normal [of "- 4" "1 / 10"] by (simp add: pow2_def)
  have r: "roundTiesToEven (1 / 10 / pow2 (- 56)) = 7205759403792794"
    by (simp add: roundTiesToEven_def pow2_def)
  have b: "\<bar>of_int 7205759403792794 * pow2 (- 56)\<bar> < 2 ^ 1024"
    by (simp add: pow2_def)
  have "binary64 (1 / 10) = Some (of_int 7205759403792794 * pow2 (- 56))"
    by (rule binary64_eval [OF _ u r b]) simp
  also have "of_int 7205759403792794 * pow2 (- 56) = 3602879701896397 / 2 ^ 55"
    by (simp add: pow2_def)
  finally show ?thesis .
qed

lemma binary64_tenth64: "binary64 tenth64 = Some tenth64"
proof -
  have u: "ulpExponent tenth64 = - 56"
    using ulpExponent_normal [of "- 4" tenth64] by (simp add: pow2_def tenth64_def)
  have r: "roundTiesToEven (tenth64 / pow2 (- 56)) = 7205759403792794"
    by (simp add: roundTiesToEven_def pow2_def tenth64_def)
  have b: "\<bar>of_int 7205759403792794 * pow2 (- 56)\<bar> < 2 ^ 1024"
    by (simp add: pow2_def)
  have "binary64 tenth64 = Some (of_int 7205759403792794 * pow2 (- 56))"
    by (rule binary64_eval [OF _ u r b]) (simp add: tenth64_def)
  also have "of_int 7205759403792794 * pow2 (- 56) = tenth64"
    by (simp add: pow2_def tenth64_def)
  finally show ?thesis .
qed

lemma binary64_tenth64_plus_3: "binary64 (tenth64 + 3) = Some there64"
proof -
  have u: "ulpExponent (tenth64 + 3) = - 51"
    using ulpExponent_normal [of 1 "tenth64 + 3"] by (simp add: pow2_def tenth64_def)
  have r: "roundTiesToEven ((tenth64 + 3) / pow2 (- 51)) = 6980579422424269"
    by (simp add: roundTiesToEven_def pow2_def tenth64_def)
  have b: "\<bar>of_int 6980579422424269 * pow2 (- 51)\<bar> < 2 ^ 1024"
    by (simp add: pow2_def)
  have "binary64 (tenth64 + 3) = Some (of_int 6980579422424269 * pow2 (- 51))"
    by (rule binary64_eval [OF _ u r b]) (simp add: tenth64_def)
  also have "of_int 6980579422424269 * pow2 (- 51) = there64"
    by (simp add: pow2_def there64_def)
  finally show ?thesis .
qed

lemma binary64_back: "binary64 (there64 - 3) = Some back64"
proof -
  have u: "ulpExponent (there64 - 3) = - 56"
    using ulpExponent_normal [of "- 4" "there64 - 3"] by (simp add: pow2_def there64_def)
  have r: "roundTiesToEven ((there64 - 3) / pow2 (- 56)) = 7205759403792800"
    by (simp add: roundTiesToEven_def pow2_def there64_def)
  have b: "\<bar>of_int 7205759403792800 * pow2 (- 56)\<bar> < 2 ^ 1024"
    by (simp add: pow2_def)
  have "binary64 (there64 - 3) = Some (of_int 7205759403792800 * pow2 (- 56))"
    by (rule binary64_eval [OF _ u r b]) (simp add: there64_def)
  also have "of_int 7205759403792800 * pow2 (- 56) = back64"
    by (simp add: pow2_def back64_def)
  finally show ?thesis .
qed

lemma binary64_tenth': "binary64 (1 / 10) = Some tenth64"
  unfolding tenth64_def by (rule binary64_tenth)

lemma floor_log2_int_bounds:
  assumes "n \<noteq> 0" and "\<bar>n\<bar> < 2 ^ 53"
  shows "0 \<le> \<lfloor>log 2 \<bar>real_of_int n\<bar>\<rfloor>" and "\<lfloor>log 2 \<bar>real_of_int n\<bar>\<rfloor> \<le> 52"
proof -
  have ge: "1 \<le> \<bar>real_of_int n\<bar>" using assms(1) by (simp flip: of_int_abs)
  have "real_of_int \<bar>n\<bar> < real_of_int (2 ^ 53)" using assms(2) by (simp only: of_int_less_iff)
  then have lt: "\<bar>real_of_int n\<bar> < 2 powr 53" by simp
  have "0 \<le> log 2 \<bar>real_of_int n\<bar>" using ge by simp
  then show "0 \<le> \<lfloor>log 2 \<bar>real_of_int n\<bar>\<rfloor>" by simp
  have "log 2 \<bar>real_of_int n\<bar> < 53" using ge lt by (simp add: log_less_iff)
  then have "\<lfloor>log 2 \<bar>real_of_int n\<bar>\<rfloor> < 53" by (simp add: floor_less_iff)
  then show "\<lfloor>log 2 \<bar>real_of_int n\<bar>\<rfloor> \<le> 52" by simp
qed

lemma binary64_of_int:
  assumes "\<bar>n\<bar> < 2 ^ 53"
  shows "binary64 (of_int n) = Some (of_int n)"
proof (cases "n = 0")
  case True
  then show ?thesis by (simp add: binary64_def)
next
  case False
  define e where "e = \<lfloor>log 2 \<bar>real_of_int n\<bar>\<rfloor>"
  have e: "0 \<le> e" "e \<le> 52" unfolding e_def by (rule floor_log2_int_bounds [OF False assms])+
  define j where "j = nat (52 - e)"
  have u: "ulpExponent (of_int n) = e - 52" using e by (simp add: ulpExponent_def e_def)
  have p: "pow2 (e - 52) = 1 / 2 ^ j"
  proof (cases "e = 52")
    case True
    then show ?thesis by (simp add: pow2_def j_def)
  next
    case False
    then have "e - 52 < 0" using e by simp
    moreover have "nat (- (e - 52)) = j" by (simp add: j_def)
    ultimately show ?thesis by (simp add: pow2_def)
  qed
  have q: "of_int n / pow2 (e - 52) = real_of_int (n * 2 ^ j)" by (simp add: p)
  have r: "roundTiesToEven (of_int n / pow2 (e - 52)) = n * 2 ^ j"
    unfolding q by (rule roundTiesToEven_of_int)
  have v: "real_of_int (n * 2 ^ j) * pow2 (e - 52) = of_int n" by (simp add: p)
  have "\<bar>n\<bar> < 2 ^ 1024" using assms by (rule less_trans) simp
  then have "real_of_int \<bar>n\<bar> < real_of_int (2 ^ 1024)" by (simp only: of_int_less_iff)
  then have b: "\<bar>real_of_int (n * 2 ^ j) * pow2 (e - 52)\<bar> < 2 ^ 1024" unfolding v by simp
  have "binary64 (of_int n) = Some (real_of_int (n * 2 ^ j) * pow2 (e - 52))"
    by (rule binary64_eval [OF _ u r b]) (use False in simp)
  then show ?thesis unfolding v .
qed

lemma translateRouting_binary64_int:
  assumes "hAdjustmentFactor f = of_int a" and "\<bar>n + a\<bar> < 2 ^ 53"
  shows "translateRoutingX_binary64 f (of_int n) False = Some (translateRoutingX f (of_int n) False)"
proof -
  have "translateRoutingX f (of_int n) False = of_int (n + a)"
    by (simp add: translateRoutingX_def assms(1))
  moreover have "translateRoutingX_binary64 f (of_int n) False = binary64 (of_int (n + a))"
    by (simp add: translateRoutingX_binary64_def assms(1))
  ultimately show ?thesis using binary64_of_int [OF assms(2)] by simp
qed

lemma roundTripX_exact:
  assumes "binary64 v = Some v" and "binary64 (v + hAdjustmentFactor f) = Some (v + hAdjustmentFactor f)"
  shows "roundTripX f v = Some v"
  using assms by (simp add: roundTripX_def translateRoutingX_binary64_def)

lemma roundTripY_exact:
  assumes "binary64 v = Some v" and "binary64 (v + vAdjustmentFactor f) = Some (v + vAdjustmentFactor f)"
  shows "roundTripY f v = Some v"
  using assms by (simp add: roundTripY_def translateRoutingY_binary64_def)

section \<open>Claim C1: the padded rectangle of an element\<close>

text \<open>
  Claim C1, evaluated on the scenario's node.  The padded rectangle of the claim ends at
  row \<open>ceil((y + height) / s) + 1 = 31\<close> and starts at column \<open>floor(x / s) - 1 = 19\<close>;
  translated these are row 32 and column 20, inside the 120 by 160 matrix, and that cell
  stays 0.  The symmetric cell, last padded column 32 in row 20, is 1: the row loop runs
  while \<open>y < endY + 1\<close>, the column loop while \<open>x <= endX + 1\<close>.
\<close>

theorem row_margin_missing:
  "nodes (diagramModel scene3) = [node3] \<and>
   \<lceil>(box_y node3 + box_height node3) / ROUTING_SCALING_FACTOR routed3\<rceil> + 1 = 31 \<and>
   \<lfloor>box_x node3 / ROUTING_SCALING_FACTOR routed3\<rfloor> - 1 = 19 \<and>
   translateRoutingX routed3 19 False = 20 \<and>
   translateRoutingY routed3 31 False = 32 \<and>
   32 < length (routingMatrix routed3) \<and>
   20 < length (row_at (store routed3) (routingMatrix routed3 ! 32)) \<and>
   cellAt routed3 (routingMatrix routed3) 32 20 = 0 \<and>
   cellAt routed3 (routingMatrix routed3) 20 32 = 1"
  using routed3_cell [of 32 20] routed3_cell [of 20 32] routed3_shape(2) routed3_shape(4) [of 32]
  by (simp add: routed3_adjustment node3_def translateRoutingX_def translateRoutingY_def scene3_def)

section \<open>Claim C2: a diagram without geometry\<close>

text \<open>
  Claim C2, evaluated on a diagram with no nodes and no links (viewport 800 by 600): the
  dimension computation does not fall back to the viewport; \<open>_.minBy\<close> of the empty
  array is \<open>undefined\<close> and reading its \<open>x\<close> throws, and the exception leaves
  \<open>getCanvasMatrix\<close> and \<open>getRoutingMatrix\<close> as well.
\<close>

theorem empty_geometry_throws:
  "calculateMatrixDimensions (newFactory emptyScene) = Inl TypeError \<and>
   fst (getCanvasMatrix (newFactory emptyScene)) = Inl TypeError \<and>
   fst (getRoutingMatrix (newFactory emptyScene)) = Inl TypeError"
proof -
  have e: "spec_boxes (engine (newFactory emptyScene)) = []"
    by (simp add: newFactory_def spec_boxes_def emptyScene_def)
  have c: "canvasMatrix (newFactory emptyScene) = []" by (simp add: newFactory_def)
  have 1: "calculateMatrixDimensions (newFactory emptyScene) = Inl TypeError"
    using e calculateMatrixDimensions_empty [of "newFactory emptyScene"]
    by (simp add: allCoords_spec_boxes)
  have 2: "getCanvasMatrix (newFactory emptyScene) = (Inl TypeError, newFactory emptyScene)"
    by (rule getCanvasMatrix_throws [OF c e])
  have 3: "fst (getRoutingMatrix (newFactory emptyScene)) = Inl TypeError"
    using calculateRoutingMatrix_throws [OF 2]
    by (simp add: getRoutingMatrix_def newFactory_def)
  show ?thesis using 1 2 3 by simp
qed

section \<open>Claim C3: the scenario of the specification\<close>

text \<open>
  Claim C3, as the code has it.  In the scenario (viewport 800 by 600, one node at
  (100,100) of size (50,50), scaling factor 5) the canvas matrix has 120 rows of 160 free
  cells, the routing matrix has 120 rows of 160 cells, and with both adjustment factors
  equal to 1 the blocked cells are shifted by one: every cell in columns 20..32 and rows
  20..31 is 1, and every cell outside columns 20..32 and rows 20..32 is 0.  (Row 32 in
  these columns is the row that the row loop leaves out; the statement says nothing
  about it.)
\<close>

theorem scenario_routing_matrix:
  assumes "row < 120" and "col < 160"
  shows "fst (getRoutingMatrix (newFactory scene3)) = Inr (routingMatrix routed3) \<and>
         contents routed3 (canvasMatrix routed3) = replicate 120 (replicate 160 0) \<and>
         length (routingMatrix routed3) = 120 \<and>
         length (row_at (store routed3) (routingMatrix routed3 ! row)) = 160 \<and>
         (20 \<le> col \<and> col \<le> 32 \<and> 20 \<le> row \<and> row \<le> 31 \<longrightarrow>
            cellAt routed3 (routingMatrix routed3) row col = 1) \<and>
         (\<not> (20 \<le> col \<and> col \<le> 32 \<and> 20 \<le> row \<and> row \<le> 32) \<longrightarrow>
            cellAt routed3 (routingMatrix routed3) row col = 0)"
  using routed3_shape(1-3) routed3_shape(4) [OF assms(1)] routed3_cell [OF assms]
  by auto

text \<open>
  Witness for C3: the cell in row 25, column 32 is blocked, the cell in row 7,
  column 40 is free.
\<close>

theorem scenario_routing_matrix_witness:
  "(25::nat) < 120 \<and> (32::nat) < 160 \<and>
   length (routingMatrix routed3) = 120 \<and>
   cellAt routed3 (routingMatrix routed3) 25 32 = 1 \<and>
   (7::nat) < 120 \<and> (40::nat) < 160 \<and>
   cellAt routed3 (routingMatrix routed3) 7 40 = 0"
  using scenario_routing_matrix [of 25 32] scenario_routing_matrix [of 7 40] by simp

text \<open>
  Counterexample to C3 as stated (blocked cells exactly columns 19..31, rows 19..31): the
  cell in row 19, column 19 is not 1, and the cell in row 31, column 32 is not 0.
\<close>

theorem scenario_routing_matrix_counterexample:
  "cellAt routed3 (routingMatrix routed3) 19 19 \<noteq> 1 \<and>
   cellAt routed3 (routingMatrix routed3) 31 32 \<noteq> 0"
  using routed3_cell [of 19 19] routed3_cell [of 31 32] by simp

section \<open>Claim C4: translated indices are non-negative\<close>



section \<open>Claim C5: the dimension formulas\<close>

text \<open>
  Claim C5.  For every geometry with at least one box (node, port or waypoint) and every
  viewport size, \<open>calculateMatrixDimensions\<close> returns exactly the dimensions of the
  specification's formulas: \<open>width = ceil(|minX| + maxX)\<close>, \<open>height = ceil(|minY| + maxY)\<close>,
  \<open>hAdjustmentFactor = |minX| / s + 1\<close>, \<open>vAdjustmentFactor = |minY| / s + 1\<close>, with
  \<open>minX = floor(min(0, min of box.x) / s) * s\<close> and
  \<open>maxX = max(max of box.x + box.width, viewport width)\<close>, the same on the Y axis.
\<close>

theorem calculateMatrixDimensions_formula:
  assumes "spec_boxes (engine f) \<noteq> []" and "0 < ROUTING_SCALING_FACTOR f"
  shows "calculateMatrixDimensions f =
     Inr (spec_dimensions (ROUTING_SCALING_FACTOR f) (spec_boxes (engine f))
            (real (offsetWidth (canvas (engine f)))) (real (offsetHeight (canvas (engine f)))))"
  using calculateMatrixDimensions_spec [of f] assms(1) by (simp add: allCoords_spec_boxes)

text \<open>
  Witness for C5: the small diagram (node at \<open>x = -7\<close>, a port, a waypoint, viewport
  20 by 10) gives width 30, height 10 and adjustment factors 3 and 1.
\<close>

theorem calculateMatrixDimensions_formula_witness:
  "spec_boxes (engine (newFactory smallScene)) \<noteq> [] \<and>
   0 < ROUTING_SCALING_FACTOR (newFactory smallScene) \<and>
   calculateMatrixDimensions (newFactory smallScene) =
     Inr \<lparr>dim_width = 30, dim_hAdjustmentFactor = 3, dim_height = 10, dim_vAdjustmentFactor = 1\<rparr>"
proof -
  have b: "spec_boxes (engine (newFactory smallScene)) \<noteq> []"
    by (simp add: newFactory_def smallScene_boxes)
  have s: "0 < ROUTING_SCALING_FACTOR (newFactory smallScene)"
    by (simp add: newFactory_def)
  show ?thesis
    using b s calculateMatrixDimensions_formula [OF b s] smallScene_dims
    by (simp add: canvasDimensions_def)
qed

section \<open>Claim C6: round trip of the translation\<close>

text \<open>
  Claim C6, as the code has it.  With the addition rounded to binary64, translating a
  coordinate \<open>v\<close> to grid space and back returns \<open>v\<close> exactly whenever \<open>v\<close> is a
  double and the sum of \<open>v\<close> and the adjustment factor is a double as well, on each axis;
  in particular for every integer \<open>v\<close> and integer adjustment factor with \<open>|v|\<close> and
  \<open>|v + factor|\<close> below \<open>2^53\<close>, which covers the grid indices the translation is
  used on.
\<close>

theorem round_trip_binary64:
  "(binary64 v = Some v \<and> binary64 (v + hAdjustmentFactor f) = Some (v + hAdjustmentFactor f)
      \<longrightarrow> roundTripX f v = Some v) \<and>
   (binary64 v = Some v \<and> binary64 (v + vAdjustmentFactor f) = Some (v + vAdjustmentFactor f)
      \<longrightarrow> roundTripY f v = Some v) \<and>
   (v = of_int n \<and> hAdjustmentFactor f = of_int a \<and> \<bar>n\<bar> < 2 ^ 53 \<and> \<bar>n + a\<bar> < 2 ^ 53
      \<longrightarrow> roundTripX f v = Some v) \<and>
   (v = of_int n \<and> vAdjustmentFactor f = of_int b \<and> \<bar>n\<bar> < 2 ^ 53 \<and> \<bar>n + b\<bar> < 2 ^ 53
      \<longrightarrow> roundTripY f v = Some v)"
proof -
  have x: "roundTripX f v = Some v"
    if "v = of_int n" "hAdjustmentFactor f = of_int a" "\<bar>n\<bar> < 2 ^ 53" "\<bar>n + a\<bar> < 2 ^ 53"
  proof (rule roundTripX_exact)
    show "binary64 v = Some v" unfolding that(1) by (rule binary64_of_int [OF that(3)])
    have "v + hAdjustmentFactor f = of_int (n + a)" by (simp add: that(1,2))
    then show "binary64 (v + hAdjustmentFactor f) = Some (v + hAdjustmentFactor f)"
      using binary64_of_int [OF that(4)] by simp
  qed
  have y: "roundTripY f v = Some v"
    if "v = of_int n" "vAdjustmentFactor f = of_int b" "\<bar>n\<bar> < 2 ^ 53" "\<bar>n + b\<bar> < 2 ^ 53"
  proof (rule roundTripY_exact)
    show "binary64 v = Some v" unfolding that(1) by (rule binary64_of_int [OF that(3)])
    have "v + vAdjustmentFactor f = of_int (n + b)" by (simp add: that(1,2))
    then show "binary64 (v + vAdjustmentFactor f) = Some (v + vAdjustmentFactor f)"
      using binary64_of_int [OF that(4)] by simp
  qed
  show ?thesis using x y roundTripX_exact [of v f] roundTripY_exact [of v f] by blast
qed

text \<open>
  Witness for C6: in the small diagram after its canvas matrix was computed (factors 3
  and 1) the index 31 translates to 34 and back to 31, on the X axis, and returns to 31
  on the Y axis.
\<close>

theorem round_trip_binary64_witness:
  "(31 :: real) = of_int 31 \<and>
   hAdjustmentFactor smallCanvas = of_int 3 \<and> vAdjustmentFactor smallCanvas = of_int 1 \<and>
   \<bar>31 :: int\<bar> < 2 ^ 53 \<and> \<bar>31 + 3 :: int\<bar> < 2 ^ 53 \<and> \<bar>31 + 1 :: int\<bar> < 2 ^ 53 \<and>
   translateRoutingX_binary64 smallCanvas 31 False = Some 34 \<and>
   roundTripX smallCanvas 31 = Some 31 \<and>
   roundTripY smallCanvas 31 = Some 31"
proof -
  have h: "hAdjustmentFactor smallCanvas = of_int 3" "vAdjustmentFactor smallCanvas = of_int 1"
    by (simp_all add: small_first_canvas)
  have t: "translateRoutingX_binary64 smallCanvas 31 False = Some 34"
    using translateRouting_binary64_int [OF h(1), of 31]
    by (simp add: translateRoutingX_def small_first_canvas)
  show ?thesis
    using h t round_trip_binary64 [of 31 smallCanvas 31 3 1] by simp
qed

text \<open>
  Counterexample to C6 as stated (the round trip is the identity for every real \<open>v\<close>):
  with the horizontal factor 3 of the small diagram, the double \<open>0.1\<close> translates to
  \<open>6980579422424269 / 2^51\<close>, and that translates back to \<open>225179981368525 / 2^51\<close>
  (printed \<open>0.10000000000000009\<close>), which is not the double \<open>0.1\<close>.
\<close>

theorem round_trip_counterexample:
  "binary64 (1 / 10) = Some tenth64 \<and>
   hAdjustmentFactor smallCanvas = 3 \<and>
   translateRoutingX_binary64 smallCanvas tenth64 False = Some there64 \<and>
   translateRoutingX_binary64 smallCanvas there64 True = Some back64 \<and>
   roundTripX smallCanvas tenth64 = Some back64 \<and>
   back64 \<noteq> tenth64"
proof -
  have h: "hAdjustmentFactor smallCanvas = 3" by (rule small_first_canvas(6))
  have 1: "translateRoutingX_binary64 smallCanvas tenth64 False = Some there64"
    using binary64_tenth64_plus_3 by (simp add: translateRoutingX_binary64_def h)
  have 2: "translateRoutingX_binary64 smallCanvas there64 True = Some back64"
    using binary64_back by (simp add: translateRoutingX_binary64_def h)
  have 3: "roundTripX smallCanvas tenth64 = Some back64"
    by (simp add: roundTripX_def 1 2)
  have 4: "back64 \<noteq> tenth64" by (simp add: tenth64_def back64_def)
  show ?thesis using binary64_tenth' h 1 2 3 4 by blast
qed

section \<open>Claim C7: the canvas matrix is not mutated\<close>

text \<open>
  Claim C7.  Let the canvas matrix stored in the factory refer to allocated rows and the
  scaling factor be positive.  After \<open>calculateRoutingMatrix\<close> (whatever its outcome) the
  stored canvas matrix is the one \<open>getCanvasMatrix\<close> returned, row for row with the same
  content; when a canvas matrix was stored before the call it is that very matrix with
  its content of before; every row that existed before the call is unchanged; a canvas
  matrix that was all 0 is all 0 afterwards; and the routing matrix shares no row with
  the canvas matrix, so the obstacles were marked on the copy only.
\<close>

theorem canvas_matrix_not_mutated:
  assumes "allocated f (canvasMatrix f)" and "0 < ROUTING_SCALING_FACTOR f"
  shows "let f1 = snd (getCanvasMatrix f); f' = snd (calculateRoutingMatrix f) in
         canvasMatrix f' = canvasMatrix f1 \<and>
         contents f' (canvasMatrix f') = contents f1 (canvasMatrix f1) \<and>
         (canvasMatrix f \<noteq> [] \<longrightarrow> f1 = f) \<and>
         (\<forall>a < length (store f). row_at (store f') a = row_at (store f) a) \<and>
         (allFree (contents f (canvasMatrix f)) \<longrightarrow> allFree (contents f' (canvasMatrix f'))) \<and>
         (fst (calculateRoutingMatrix f) = Inr () \<longrightarrow>
            set (routingMatrix f') \<inter> set (canvasMatrix f') = {})"
proof (cases "canvasMatrix f = []")
  case False
  have gc: "getCanvasMatrix f = (Inr (canvasMatrix f), f)" by (rule getCanvasMatrix_cached [OF False])
  note res = calculateRoutingMatrix_result [OF gc]
  have al: "\<And>a. a \<in> set (canvasMatrix f) \<Longrightarrow> a < length (store f)"
    using assms(1) by (simp add: allocated_def list_all_iff)
  have c: "contents (snd (calculateRoutingMatrix f)) (canvasMatrix f) = contents f (canvasMatrix f)"
    by (rule contents_cong) (use al res(9) in simp)
  have d: "set (routingMatrix (snd (calculateRoutingMatrix f))) \<inter> set (canvasMatrix f) = {}"
    using al by (fastforce simp: res(2))
  show ?thesis using False c d res(3,9) by (simp add: gc Let_def)
next
  case True
  show ?thesis
  proof (cases "spec_boxes (engine f) = []")
    case e: True
    have gc: "getCanvasMatrix f = (Inl TypeError, f)" by (rule getCanvasMatrix_throws [OF True e])
    show ?thesis using calculateRoutingMatrix_throws [OF gc] True by (simp add: gc Let_def)
  next
    case b: False
    let ?n = "length (store f)"
    let ?cm = "[?n ..< ?n + matrixHeight f]"
    let ?f1 = "f\<lparr>hAdjustmentFactor := dim_hAdjustmentFactor (canvasDimensions f),
        vAdjustmentFactor := dim_vAdjustmentFactor (canvasDimensions f),
        store := store f @ replicate (matrixHeight f) (replicate (matrixWidth f) 0),
        canvasMatrix := ?cm\<rparr>"
    have gc: "getCanvasMatrix f = (Inr ?cm, ?f1)" by (rule getCanvasMatrix_fresh [OF True b assms(2)])
    note fr = calculateRoutingMatrix_fresh [OF True b assms(2)]
    have c1: "contents ?f1 ?cm = replicate (matrixHeight f) (replicate (matrixWidth f) 0)"
      unfolding contents_def by (rule nth_equalityI) (simp_all add: row_at_def nth_append)
    have d: "set (routingMatrix (snd (calculateRoutingMatrix f))) \<inter> set ?cm = {}"
      by (auto simp: fr(11))
    show ?thesis
      using True d fr(12) allFree_replicate [of "matrixHeight f" "matrixWidth f"]
      by (simp add: gc Let_def fr(3) fr(6) [unfolded fr(3)] c1)
  qed
qed

text \<open>
  Witness for C7: the small diagram after its canvas matrix (2 rows of 6 cells) was
  computed.  The routing computation succeeds and blocks the cell in row 0, column 0 of
  the routing matrix, and the canvas matrix still holds two rows of six zeros.
\<close>

theorem canvas_matrix_not_mutated_witness:
  "allocated smallCanvas (canvasMatrix smallCanvas) \<and>
   0 < ROUTING_SCALING_FACTOR smallCanvas \<and>
   canvasMatrix smallCanvas = [0, 1] \<and>
   allFree (contents smallCanvas (canvasMatrix smallCanvas)) \<and>
   fst (calculateRoutingMatrix smallCanvas) = Inr () \<and>
   cellAt smallMarked (routingMatrix smallMarked) 0 0 = 1 \<and>
   canvasMatrix smallMarked = [0, 1] \<and>
   contents smallMarked (canvasMatrix smallMarked) = [replicate 6 0, replicate 6 0] \<and>
   allFree (contents smallMarked (canvasMatrix smallMarked)) \<and>
   set (routingMatrix smallMarked) \<inter> set (canvasMatrix smallMarked) = {}"
proof -
  have a: "allocated smallCanvas (canvasMatrix smallCanvas)"
    by (simp add: allocated_def small_first_canvas)
  have s: "0 < ROUTING_SCALING_FACTOR smallCanvas" by (simp add: small_first_canvas)
  have ne: "canvasMatrix smallCanvas \<noteq> []" by (simp add: small_first_canvas)
  have gc: "getCanvasMatrix smallCanvas = (Inr (canvasMatrix smallCanvas), smallCanvas)"
    by (rule getCanvasMatrix_cached [OF ne])
  note res = calculateRoutingMatrix_result [OF gc, folded smallMarked_def]
  have fr: "allFree (contents smallCanvas (canvasMatrix smallCanvas))"
    by (simp add: smallCanvas_contents allFree_def list_all_iff)
  have ok: "fst (calculateRoutingMatrix smallCanvas) = Inr ()" using res(1) by simp
  have "cellAt smallMarked (routingMatrix smallMarked) 0 0 =
          (if (real 0, real 0) \<in> markedBy smallCanvas (obstacles (engine smallCanvas)) then 1
           else cellAt smallCanvas (canvasMatrix smallCanvas) 0 0)"
    by (rule res(11)) (simp_all add: small_first_canvas row_at_def)
  then have cell: "cellAt smallMarked (routingMatrix smallMarked) 0 0 = 1"
    using smallCanvas_corner_marked by (simp add: small_first_canvas(8))
  note th = canvas_matrix_not_mutated [OF a s, unfolded Let_def, folded smallMarked_def]
  have th': "canvasMatrix smallMarked = canvasMatrix smallCanvas \<and>
      contents smallMarked (canvasMatrix smallMarked) = contents smallCanvas (canvasMatrix smallCanvas) \<and>
      allFree (contents smallMarked (canvasMatrix smallMarked)) \<and>
      set (routingMatrix smallMarked) \<inter> set (canvasMatrix smallMarked) = {}"
    using th fr ok by (auto simp: gc)
  have c: "canvasMatrix smallCanvas = [0, 1]" by (rule small_first_canvas(2))
  have t1: "canvasMatrix smallMarked = canvasMatrix smallCanvas" using th' by blast
  have t2: "contents smallMarked (canvasMatrix smallMarked) =
              contents smallCanvas (canvasMatrix smallCanvas)" using th' by blast
  have 1: "canvasMatrix smallMarked = [0, 1]" unfolding t1 by (rule c)
  have 2: "contents smallMarked (canvasMatrix smallMarked) = [replicate 6 0, replicate 6 0]"
    unfolding t2 by (rule smallCanvas_contents)
  have 3: "allFree (contents smallMarked (canvasMatrix smallMarked))" using th' by blast
  have 4: "set (routingMatrix smallMarked) \<inter> set (canvasMatrix smallMarked) = {}"
    using th' by blast
  show ?thesis
    using a s c fr ok cell 1 2 3 4 by blast
qed

section \<open>Claim C8: the cache\<close>

text \<open>
  Claim C8, as the code has it.  Each of \<open>getCanvasMatrix\<close> and \<open>getRoutingMatrix\<close>
  returns the stored matrix and leaves the factory unchanged when the cached field is
  not empty, and computes when it is empty.  After a read that returned a matrix with at
  least one row, the next read returns that matrix without computing, whatever the
  geometry \<open>e\<close> has become in between.  For a positive scaling factor two consecutive
  reads with nothing in between return the same matrix and the same factory, also for a
  matrix without rows.  An invalidation empties both fields, so the read after it
  computes.
\<close>

theorem matrix_cache:
  "(canvasMatrix f \<noteq> [] \<longrightarrow> getCanvasMatrix f = (Inr (canvasMatrix f), f)) \<and>
   (canvasMatrix f = [] \<longrightarrow>
      getCanvasMatrix f = (case calculateCanvasMatrix f of
                             (Inl e, f') \<Rightarrow> (Inl e, f')
                           | (Inr u, f') \<Rightarrow> (Inr (canvasMatrix f'), f'))) \<and>
   (routingMatrix f \<noteq> [] \<longrightarrow> getRoutingMatrix f = (Inr (routingMatrix f), f)) \<and>
   (routingMatrix f = [] \<longrightarrow>
      getRoutingMatrix f = (case calculateRoutingMatrix f of
                              (Inl e, f') \<Rightarrow> (Inl e, f')
                            | (Inr u, f') \<Rightarrow> (Inr (routingMatrix f'), f'))) \<and>
   (getCanvasMatrix f = (Inr cm, fc) \<and> cm \<noteq> [] \<longrightarrow>
      getCanvasMatrix (fc\<lparr>engine := e\<rparr>) = (Inr cm, fc\<lparr>engine := e\<rparr>)) \<and>
   (getRoutingMatrix f = (Inr rm, fr) \<and> rm \<noteq> [] \<longrightarrow>
      getRoutingMatrix (fr\<lparr>engine := e\<rparr>) = (Inr rm, fr\<lparr>engine := e\<rparr>)) \<and>
   (0 < ROUTING_SCALING_FACTOR f \<and> getCanvasMatrix f = (Inr cm, fc) \<longrightarrow>
      getCanvasMatrix fc = (Inr cm, fc)) \<and>
   (0 < ROUTING_SCALING_FACTOR f \<and> getRoutingMatrix f = (Inr rm, fr) \<longrightarrow>
      getRoutingMatrix fr = (Inr rm, fr)) \<and>
   canvasMatrix (invalidate f) = [] \<and> routingMatrix (invalidate f) = []"
proof -
  have 1: "getCanvasMatrix (fc\<lparr>engine := e\<rparr>) = (Inr cm, fc\<lparr>engine := e\<rparr>)"
    if "getCanvasMatrix f = (Inr cm, fc)" "cm \<noteq> []"
    using getCanvasMatrix_field [OF that(1)] that(2) by (simp add: getCanvasMatrix_def)
  have 2: "getRoutingMatrix (fr\<lparr>engine := e\<rparr>) = (Inr rm, fr\<lparr>engine := e\<rparr>)"
    if "getRoutingMatrix f = (Inr rm, fr)" "rm \<noteq> []"
    using getRoutingMatrix_field [OF that(1)] that(2) by (simp add: getRoutingMatrix_def)
  have 3: "getCanvasMatrix fc = (Inr cm, fc)"
    if "0 < ROUTING_SCALING_FACTOR f" "getCanvasMatrix f = (Inr cm, fc)"
    using that by (rule getCanvasMatrix_twice)
  have 4: "getRoutingMatrix fr = (Inr rm, fr)"
    if "0 < ROUTING_SCALING_FACTOR f" "getRoutingMatrix f = (Inr rm, fr)"
    using that by (rule getRoutingMatrix_twice)
  have 5: "canvasMatrix f \<noteq> [] \<longrightarrow> getCanvasMatrix f = (Inr (canvasMatrix f), f)"
    by (simp add: getCanvasMatrix_def)
  have 6: "canvasMatrix f = [] \<longrightarrow>
      getCanvasMatrix f = (case calculateCanvasMatrix f of
                             (Inl e, f') \<Rightarrow> (Inl e, f')
                           | (Inr u, f') \<Rightarrow> (Inr (canvasMatrix f'), f'))"
    by (simp add: getCanvasMatrix_def)
  have 7: "routingMatrix f \<noteq> [] \<longrightarrow> getRoutingMatrix f = (Inr (routingMatrix f), f)"
    by (simp add: getRoutingMatrix_def)
  have 8: "routingMatrix f = [] \<longrightarrow>
      getRoutingMatrix f = (case calculateRoutingMatrix f of
                              (Inl e, f') \<Rightarrow> (Inl e, f')
                            | (Inr u, f') \<Rightarrow> (Inr (routingMatrix f'), f'))"
    by (simp add: getRoutingMatrix_def)
  have 9: "canvasMatrix (invalidate f) = [] \<and> routingMatrix (invalidate f) = []"
    by (simp add: invalidate_def)
  show ?thesis
    using 1 2 3 4 5 6 7 8 9 by blast
qed

text \<open>
  Witness for C8: the small diagram.  The first reads compute the canvas matrix (rows 0
  and 1) and the routing matrix (rows 2 and 3); later reads return them, also after the
  geometry was replaced by the scenario's.
\<close>

theorem matrix_cache_witness:
  "canvasMatrix (newFactory smallScene) = [] \<and> routingMatrix (newFactory smallScene) = [] \<and>
   0 < ROUTING_SCALING_FACTOR (newFactory smallScene) \<and>
   getCanvasMatrix (newFactory smallScene) = (Inr [0, 1], smallCanvas) \<and>
   getCanvasMatrix smallCanvas = (Inr [0, 1], smallCanvas) \<and>
   getCanvasMatrix (smallCanvas\<lparr>engine := scene3\<rparr>) = (Inr [0, 1], smallCanvas\<lparr>engine := scene3\<rparr>) \<and>
   getRoutingMatrix (newFactory smallScene) = (Inr [2, 3], smallRouted) \<and>
   getRoutingMatrix smallRouted = (Inr [2, 3], smallRouted) \<and>
   getRoutingMatrix (smallRouted\<lparr>engine := scene3\<rparr>) = (Inr [2, 3], smallRouted\<lparr>engine := scene3\<rparr>) \<and>
   canvasMatrix smallRouted = [0, 1] \<and>
   getCanvasMatrix smallRouted = (Inr (canvasMatrix smallRouted), smallRouted) \<and>
   canvasMatrix (invalidate smallRouted) = [] \<and> routingMatrix (invalidate smallRouted) = []"
  using matrix_cache [of "newFactory smallScene" "[0, 1]" smallCanvas scene3 "[2, 3]" smallRouted]
    matrix_cache [of smallRouted "[0, 1]" smallRouted scene3 "[2, 3]" smallRouted]
    small_first_canvas(1) small_routed(1,3)
  by (simp add: newFactory_fields)

text \<open>
  Counterexample to C8 as stated: for the diagram without extent the first read of the
  canvas matrix computes a matrix with no rows, which leaves the cached field empty; a
  second read with no invalidation in between, after the viewport and the geometry
  became those of the small diagram, computes again and returns two rows.
\<close>

theorem matrix_cache_counterexample:
  "fst (getCanvasMatrix (newFactory flatScene)) = Inr [] \<and>
   fst (getCanvasMatrix ((snd (getCanvasMatrix (newFactory flatScene)))\<lparr>engine := smallScene\<rparr>))
     = Inr [0, 1] \<and>
   fst (getCanvasMatrix ((snd (getCanvasMatrix (newFactory flatScene)))\<lparr>engine := smallScene\<rparr>))
     \<noteq> fst (getCanvasMatrix (newFactory flatScene))"
  using resized_canvas_read by (simp add: flat_first_canvas(1) flip: flatCanvas_def)

section \<open>Claim C9: the emitted path\<close>

text \<open>
  Claim C9.  For an input of at least one point, \<open>generateDynamicPath\<close> yields a move to
  the first point scaled by the scaling factor followed by one line-to per further point,
  scaled, in input order, nothing removed or merged; and the input \<open>[(0,0),(2,3)]\<close>
  with scaling factor 5 yields move-to \<open>(0,0)\<close>, line-to \<open>(10,15)\<close>.
\<close>

theorem generateDynamicPath_scaled:
  "generateDynamicPath f (p # ps) =
     Inr (MoveTo (fst p * ROUTING_SCALING_FACTOR f) (snd p * ROUTING_SCALING_FACTOR f) #
          map (\<lambda>q. LineTo (fst q * ROUTING_SCALING_FACTOR f) (snd q * ROUTING_SCALING_FACTOR f)) ps)
   \<and> generateDynamicPath (newFactory e) [(0, 0), (2, 3)] = Inr [MoveTo 0 0, LineTo 10 15]"
  by (simp add: generateDynamicPath_def fold_lineto moveto_def newFactory_def)

section \<open>Claim C10: the first read of the routing matrix\<close>

text \<open>
  Claim C10, as the code has it.  Let both caches be empty, the geometry have at least
  one box and the scaling factor be positive.  Then \<open>getRoutingMatrix\<close> succeeds; the
  canvas matrix it stores is the one \<open>calculateCanvasMatrix\<close> computes, with its content
  intact, and both stored adjustment factors are the ones \<open>calculateMatrixDimensions\<close>
  produces; they are stored in the factory in which the copy is marked, before the first
  mark; each cell of the routing matrix is 1 exactly if a padded cell of a node or port
  translates to it under these stored factors; a read of the canvas matrix right
  afterwards returns the stored canvas matrix and changes nothing; and when the canvas
  matrix has at least one row that read does not compute, whatever the geometry \<open>e\<close> is
  by then.
\<close>

theorem first_routing_read:
  assumes c: "canvasMatrix f = []" and r: "routingMatrix f = []"
    and b: "spec_boxes (engine f) \<noteq> []" and s: "0 < ROUTING_SCALING_FACTOR f"
  shows "let fc = snd (calculateCanvasMatrix f);
             fR = snd (getRoutingMatrix f);
             m = routingMatrix fR;
             f2 = snd (cloneDeep (canvasMatrix fc) fc)
         in fst (getRoutingMatrix f) = Inr m \<and>
            calculateCanvasMatrix f = (Inr (), fc) \<and>
            calculateMatrixDimensions f = Inr (canvasDimensions f) \<and>
            hAdjustmentFactor fc = dim_hAdjustmentFactor (canvasDimensions f) \<and>
            vAdjustmentFactor fc = dim_vAdjustmentFactor (canvasDimensions f) \<and>
            hAdjustmentFactor f2 = hAdjustmentFactor fc \<and>
            vAdjustmentFactor f2 = vAdjustmentFactor fc \<and>
            fR = (markPorts m (markNodes m f2))\<lparr>routingMatrix := m\<rparr> \<and>
            hAdjustmentFactor fR = hAdjustmentFactor fc \<and>
            vAdjustmentFactor fR = vAdjustmentFactor fc \<and>
            canvasMatrix fR = canvasMatrix fc \<and>
            contents fR (canvasMatrix fR) = contents fc (canvasMatrix fc) \<and>
            getCanvasMatrix fR = (Inr (canvasMatrix fR), fR) \<and>
            (canvasMatrix fR \<noteq> [] \<longrightarrow>
               getCanvasMatrix (fR\<lparr>engine := e\<rparr>) = (Inr (canvasMatrix fR), fR\<lparr>engine := e\<rparr>)) \<and>
            (\<forall>i j. i < length m \<and> j < length (row_at (store fR) (m ! i)) \<longrightarrow>
               cellAt fR m i j =
                 (if (real j, real i) \<in> markedBy fR (obstacles (engine f)) then 1 else 0))"
proof -
  let ?n = "length (store f)"
  let ?cm = "[?n ..< ?n + matrixHeight f]"
  define fc where "fc = snd (calculateCanvasMatrix f)"
  define fR where "fR = snd (getRoutingMatrix f)"
  define m where "m = routingMatrix fR"
  define f2 where "f2 = snd (cloneDeep (canvasMatrix fc) fc)"
  have cc: "calculateCanvasMatrix f =
     (Inr (), f\<lparr>hAdjustmentFactor := dim_hAdjustmentFactor (canvasDimensions f),
               vAdjustmentFactor := dim_vAdjustmentFactor (canvasDimensions f),
               store := store f @ replicate (matrixHeight f) (replicate (matrixWidth f) 0),
               canvasMatrix := ?cm\<rparr>)"
    by (rule calculateCanvasMatrix_Inr [OF b s])
  have fc: "fc = f\<lparr>hAdjustmentFactor := dim_hAdjustmentFactor (canvasDimensions f),
               vAdjustmentFactor := dim_vAdjustmentFactor (canvasDimensions f),
               store := store f @ replicate (matrixHeight f) (replicate (matrixWidth f) 0),
               canvasMatrix := ?cm\<rparr>"
    by (simp add: fc_def cc)
  have gc: "getCanvasMatrix f = (Inr ?cm, fc)"
    unfolding fc by (rule getCanvasMatrix_fresh [OF c b s])
  have gr: "getRoutingMatrix f = (Inr (routingMatrix (snd (calculateRoutingMatrix f))),
                                  snd (calculateRoutingMatrix f))"
    by (rule getRoutingMatrix_calculated [OF c r b s])
  then have fR: "fR = snd (calculateRoutingMatrix f)" by (simp add: fR_def)
  note res = calculateRoutingMatrix_result [OF gc, folded fR]
  note fr = calculateRoutingMatrix_fresh [OF c b s, folded fR]
  have 1: "fst (getRoutingMatrix f) = Inr m" using gr by (simp add: m_def fR)
  have 2: "calculateCanvasMatrix f = (Inr (), fc)" using cc fc by simp
  have 3: "calculateMatrixDimensions f = Inr (canvasDimensions f)"
    by (rule calculateMatrixDimensions_canvasDimensions [OF b])
  have 4: "hAdjustmentFactor fc = dim_hAdjustmentFactor (canvasDimensions f)"
    "vAdjustmentFactor fc = dim_vAdjustmentFactor (canvasDimensions f)"
    by (simp_all add: fc)
  have cfc: "canvasMatrix fc = ?cm" by (simp add: fc)
  have 5: "hAdjustmentFactor f2 = hAdjustmentFactor fc" "vAdjustmentFactor f2 = vAdjustmentFactor fc"
    by (simp_all add: f2_def cloneDeep_def newRows_def)
  have 6: "fR = (markPorts m (markNodes m f2))\<lparr>routingMatrix := m\<rparr>"
    using res(13) by (simp add: m_def f2_def cfc)
  have 7: "hAdjustmentFactor fR = hAdjustmentFactor fc" "vAdjustmentFactor fR = vAdjustmentFactor fc"
    by (simp_all add: res(4,5))
  have 8: "canvasMatrix fR = canvasMatrix fc" by (simp add: res(3))
  have "contents fc ?cm = replicate (matrixHeight f) (replicate (matrixWidth f) 0)"
    unfolding contents_def fc by (rule nth_equalityI) (simp_all add: row_at_def nth_append)
  then have 9: "contents fR (canvasMatrix fR) = contents fc (canvasMatrix fc)"
    using fr(6) by (simp add: cfc fr(3))
  have 10: "getCanvasMatrix fR = (Inr (canvasMatrix fR), fR)"
  proof (cases "matrixHeight f = 0")
    case False
    then have "canvasMatrix fR \<noteq> []" by (simp add: fr(3))
    then show ?thesis by (rule getCanvasMatrix_cached)
  next
    case True
    then have e: "?cm = []" by simp
    have "routingMatrix fc = []" using r by (simp add: fc)
    then have eq: "fR = fc" using res(12) e by simp
    have "getCanvasMatrix fc = (Inr ?cm, fc)" by (rule getCanvasMatrix_twice [OF s gc])
    then show ?thesis unfolding eq cfc .
  qed
  have 11: "getCanvasMatrix (fR\<lparr>engine := e\<rparr>) = (Inr (canvasMatrix fR), fR\<lparr>engine := e\<rparr>)"
    if "canvasMatrix fR \<noteq> []"
    using that by (simp add: getCanvasMatrix_def)
  have 12: "cellAt fR m i j = (if (real j, real i) \<in> markedBy fR (obstacles (engine f)) then 1 else 0)"
    if "i < length m" "j < length (row_at (store fR) (m ! i))" for i j
  proof -
    have i: "i < matrixHeight f" using that(1) by (simp add: m_def fr(2))
    then have "j < matrixWidth f" using that(2) fr(7) [OF i] by (simp add: m_def)
    then show ?thesis using fr(8) [OF i] by (simp add: m_def)
  qed
  show ?thesis
    unfolding Let_def
    using 1 2 3 4 5 6 7 8 9 10 11 12
    unfolding fc_def [symmetric] fR_def [symmetric] m_def [symmetric] f2_def [symmetric]
    by blast
qed

text \<open>
  Witness for C10: the small diagram: factors 3 and 1, canvas rows 0 and 1, routing rows
  2 and 3, and the canvas matrix is returned from the cache also after the geometry
  changed.
\<close>

theorem first_routing_read_witness:
  "canvasMatrix (newFactory smallScene) = [] \<and> routingMatrix (newFactory smallScene) = [] \<and>
   spec_boxes (engine (newFactory smallScene)) \<noteq> [] \<and>
   0 < ROUTING_SCALING_FACTOR (newFactory smallScene) \<and>
   fst (getRoutingMatrix (newFactory smallScene)) = Inr [2, 3] \<and>
   calculateMatrixDimensions (newFactory smallScene) =
     Inr \<lparr>dim_width = 30, dim_hAdjustmentFactor = 3, dim_height = 10, dim_vAdjustmentFactor = 1\<rparr> \<and>
   hAdjustmentFactor smallRouted = 3 \<and> vAdjustmentFactor smallRouted = 1 \<and>
   canvasMatrix smallRouted = [0, 1] \<and>
   getCanvasMatrix smallRouted = (Inr [0, 1], smallRouted) \<and>
   getCanvasMatrix (smallRouted\<lparr>engine := scene3\<rparr>) = (Inr [0, 1], smallRouted\<lparr>engine := scene3\<rparr>)"
proof -
  have b: "spec_boxes (engine (newFactory smallScene)) \<noteq> []"
    by (simp add: newFactory_fields smallScene_nonempty)
  note th = first_routing_read [OF newFactory_fields(1,2) b newFactory_fields(6), of scene3,
      unfolded Let_def, folded smallRouted_def]
  show ?thesis
    using th b small_routed by (simp add: newFactory_fields smallScene_dims)
qed

text \<open>
  Counterexample to C10 as stated: for the diagram without extent \<open>getRoutingMatrix\<close>
  with both caches empty stores a canvas matrix with no rows; a later
  \<open>getCanvasMatrix\<close>, after the geometry became the small diagram's, computes again and
  returns two rows instead of the stored matrix.
\<close>

theorem first_routing_read_counterexample:
  "canvasMatrix (newFactory flatScene) = [] \<and> routingMatrix (newFactory flatScene) = [] \<and>
   fst (getRoutingMatrix (newFactory flatScene)) = Inr [] \<and>
   canvasMatrix flatRouted = [] \<and>
   fst (getCanvasMatrix (flatRouted\<lparr>engine := smallScene\<rparr>)) = Inr [0, 1] \<and>
   fst (getCanvasMatrix (flatRouted\<lparr>engine := smallScene\<rparr>)) \<noteq> Inr (canvasMatrix flatRouted)"
  using resized_canvas_read
  by (simp add: flat_first_routing flat_first_canvas newFactory_fields)

end
